theory Spec2Isabelle
  imports Complex_Main "HOL-Library.Multiset" "HOL-Library.Sublist"
begin

section \<open>Python values\<close>

text \<open>
  The pipeline works on what \<^verbatim>\<open>json.loads\<close> returns: \<^verbatim>\<open>None\<close>, booleans, numbers,
  strings, lists and dicts. A dict is an association list in insertion order with
  distinct keys. Texts are lists of characters with code points below 256. A float
  literal is carried as its exact decimal value (IEEE rounding, NaN and the infinities
  are not modelled).
\<close>

datatype json =
    JNull
  | JBool bool
  | JInt int
  | JFloat rat
  | JStr string
  | JArr "json list"
  | JObj "(string \<times> json) list"

text \<open>The exceptions the modelled code can raise.\<close>

datatype exn = TypeError | AttributeError | IndexError

text \<open>Truth value of an operand of \<^verbatim>\<open>or\<close>, \<^verbatim>\<open>not\<close> and \<^verbatim>\<open>if\<close>.\<close>

fun truthy :: "json \<Rightarrow> bool" where
  "truthy JNull = False"
| "truthy (JBool b) = b"
| "truthy (JInt n) = (n \<noteq> 0)"
| "truthy (JFloat r) = (r \<noteq> 0)"
| "truthy (JStr s) = (s \<noteq> [])"
| "truthy (JArr xs) = (xs \<noteq> [])"
| "truthy (JObj kvs) = (kvs \<noteq> [])"

text \<open>\<^verbatim>\<open>a or b\<close>: the first operand when it is truthy, else the second.\<close>

definition py_or :: "json \<Rightarrow> json \<Rightarrow> json" where
  "py_or a b = (if truthy a then a else b)"

text \<open>\<^verbatim>\<open>d.get(k)\<close>, \<^verbatim>\<open>d.get(k, dflt)\<close>, \<^verbatim>\<open>k in d\<close> and \<^verbatim>\<open>d[k] = v\<close> on a dict.\<close>

definition dget :: "(string \<times> json) list \<Rightarrow> string \<Rightarrow> json" where
  "dget d k = (case map_of d k of None \<Rightarrow> JNull | Some v \<Rightarrow> v)"

definition dget_or :: "(string \<times> json) list \<Rightarrow> string \<Rightarrow> json \<Rightarrow> json" where
  "dget_or d k dflt = (case map_of d k of None \<Rightarrow> dflt | Some v \<Rightarrow> v)"

definition has_key :: "(string \<times> json) list \<Rightarrow> string \<Rightarrow> bool" where
  "has_key d k = (map_of d k \<noteq> None)"

fun dset :: "(string \<times> json) list \<Rightarrow> string \<Rightarrow> json \<Rightarrow> (string \<times> json) list" where
  "dset [] k v = [(k, v)]"
| "dset ((k', v') # d) k v = (if k' = k then (k, v) # d else (k', v') # dset d k v)"

text \<open>Numeric value of an \<^verbatim>\<open>int\<close>, \<^verbatim>\<open>float\<close> or \<^verbatim>\<open>bool\<close> (\<^verbatim>\<open>True\<close> is 1).\<close>

fun num_val :: "json \<Rightarrow> rat option" where
  "num_val (JBool b) = Some (of_bool b)"
| "num_val (JInt n) = Some (of_int n)"
| "num_val (JFloat r) = Some r"
| "num_val _ = None"

text \<open>
  \<^verbatim>\<open>v == w\<close>: numbers by value, strings and \<^verbatim>\<open>None\<close> by identity of value, lists
  element by element, dicts key by key whatever the order.
\<close>

fun py_eq :: "json \<Rightarrow> json \<Rightarrow> bool" where
  "py_eq JNull w = (w = JNull)"
| "py_eq (JStr s) w = (w = JStr s)"
| "py_eq (JArr xs) w = (case w of JArr ys \<Rightarrow> list_all2 py_eq xs ys | _ \<Rightarrow> False)"
| "py_eq (JObj kvs) w =
     (case w of
        JObj kws \<Rightarrow>
          length kvs = length kws \<and>
          list_all (\<lambda>(k, v). case map_of kws k of None \<Rightarrow> False | Some u \<Rightarrow> py_eq v u) kvs
      | _ \<Rightarrow> False)"
| "py_eq v w = (case num_val w of None \<Rightarrow> False | Some y \<Rightarrow> num_val v = Some y)"

text \<open>
  \<^verbatim>\<open>v > w\<close> and \<^verbatim>\<open>v >= w\<close> at the places the code uses them: there one operand is
  always a number, so the comparison is numeric or raises \<^verbatim>\<open>TypeError\<close>.
\<close>

definition py_gt :: "json \<Rightarrow> json \<Rightarrow> exn + bool" where
  "py_gt v w =
     (case (num_val v, num_val w) of (Some x, Some y) \<Rightarrow> Inr (x > y) | _ \<Rightarrow> Inl TypeError)"

definition py_ge :: "json \<Rightarrow> json \<Rightarrow> exn + bool" where
  "py_ge v w =
     (case (num_val v, num_val w) of (Some x, Some y) \<Rightarrow> Inr (x \<ge> y) | _ \<Rightarrow> Inl TypeError)"

subsection \<open>Text helpers\<close>

text \<open>\<^verbatim>\<open>str.isspace\<close> (also the class \<^verbatim>\<open>\s\<close> of \<^verbatim>\<open>re\<close>) on code points below 256.\<close>

definition is_space :: "char \<Rightarrow> bool" where
  "is_space c =
     (let n = (of_char c :: nat)
      in (9 \<le> n \<and> n \<le> 13) \<or> (28 \<le> n \<and> n \<le> 32) \<or> n = 133 \<or> n = 160)"

definition py_strip :: "string \<Rightarrow> string" where
  "py_strip s = rev (dropWhile is_space (rev (dropWhile is_space s)))"

definition lower_char :: "char \<Rightarrow> char" where
  "lower_char c =
     (let n = (of_char c :: nat)
      in if (65 \<le> n \<and> n \<le> 90) \<or> (192 \<le> n \<and> n \<le> 222 \<and> n \<noteq> 215)
         then char_of (n + 32) else c)"

definition py_lower :: "string \<Rightarrow> string" where
  "py_lower s = map lower_char s"

text \<open>\<^verbatim>\<open>str(n)\<close> for an integer.\<close>

fun digits :: "nat \<Rightarrow> string" where
  "digits n = (if n < 10 then [char_of (48 + n)] else digits (n div 10) @ [char_of (48 + n mod 10)])"

definition str_int :: "int \<Rightarrow> string" where
  "str_int i = (if i < 0 then CHR ''-'' # digits (nat (- i)) else digits (nat i))"

text \<open>
  \<^verbatim>\<open>str(v)\<close>. It is exact for strings, booleans, \<^verbatim>\<open>None\<close> and integers. For a float,
  list or dict only the first character of the text is kept: the text is compared with
  words that start with a letter, and it starts with a digit, a sign, a bracket or a
  brace.
\<close>

fun py_str :: "json \<Rightarrow> string" where
  "py_str (JStr s) = s"
| "py_str (JBool b) = (if b then ''True'' else ''False'')"
| "py_str JNull = ''None''"
| "py_str (JInt i) = str_int i"
| "py_str (JFloat r) = (if r < 0 then ''-'' else ''0'')"
| "py_str (JArr xs) = ''[''"
| "py_str (JObj kvs) = ''{''"

section \<open>Normalising assessment-error records\<close>

text \<open>
  \<^verbatim>\<open>parse_midterm_analysis\<close>, the body of the loop over the parsed errors. The
  lookups \<^verbatim>\<open>error.get(...) or error.get(...)\<close>:
\<close>

definition marks_received :: "(string \<times> json) list \<Rightarrow> json" where
  "marks_received e = py_or (dget e ''marksReceived'') (dget e ''marks_received'')"

definition total_marks :: "(string \<times> json) list \<Rightarrow> json" where
  "total_marks e = py_or (dget e ''totalMarks'') (dget e ''total_marks'')"

definition raw_correctness :: "(string \<times> json) list \<Rightarrow> json" where
  "raw_correctness e =
     py_or (py_or (dget e ''correctness'') (dget e ''status'')) (dget e ''correctness_status'')"

text \<open>
  The chain that maps the raw value to one of the three words; \<open>None\<close> is Python's
  \<^verbatim>\<open>None\<close>, for a falsy or unrecognised value.
\<close>

definition recognise :: "json \<Rightarrow> string option" where
  "recognise c =
     (if truthy c then
        (let correctness_lower = py_strip (py_lower (py_str c))
         in if correctness_lower \<in> set [''correct'', ''right'', ''true''] then Some ''correct''
            else if correctness_lower \<in> set [''incorrect'', ''wrong'', ''false''] then Some ''incorrect''
            else if correctness_lower \<in>
                 set [''partially_correct'', ''partially correct'', ''partial'', ''partially'']
            then Some ''partially_correct''
            else None)
      else None)"

text \<open>The inference from the marks when the chain gave \<^verbatim>\<open>None\<close>.\<close>

definition from_marks :: "json \<Rightarrow> json \<Rightarrow> exn + string" where
  "from_marks mr tm =
     (if mr \<noteq> JNull \<and> tm \<noteq> JNull then
        (case py_gt tm (JInt 0) of
           Inl x \<Rightarrow> Inl x
         | Inr positive \<Rightarrow>
             if positive then
               (case py_ge mr tm of
                  Inl x \<Rightarrow> Inl x
                | Inr full \<Rightarrow>
                    if full then Inr ''correct''
                    else (case py_gt mr (JInt 0) of
                            Inl x \<Rightarrow> Inl x
                          | Inr some \<Rightarrow> if some then Inr ''partially_correct'' else Inr ''incorrect''))
             else Inr ''incorrect'')
      else Inr ''incorrect'')"

definition derive_correctness :: "(string \<times> json) list \<Rightarrow> exn + string" where
  "derive_correctness e =
     (case recognise (raw_correctness e) of
        Some w \<Rightarrow> Inr w
      | None \<Rightarrow> from_marks (marks_received e) (total_marks e))"

text \<open>One pass of the loop body: the normalised record, or the exception raised.\<close>

definition normalize_error :: "json \<Rightarrow> exn + json" where
  "normalize_error error =
     (case error of
        JObj e \<Rightarrow>
          (case derive_correctness e of
             Inl x \<Rightarrow> Inl x
           | Inr correctness \<Rightarrow>
               Inr (JObj
                 [(''question'', dget_or e ''question'' (JInt 0)),
                  (''yourAnswer'', dget_or e ''yourAnswer'' (dget_or e ''your_answer'' (JStr [])))  ,
                  (''correctAnswer'', dget_or e ''correctAnswer'' (dget_or e ''correct_answer'' (JStr []))),
                  (''topic'', dget_or e ''topic'' (JStr ''Unknown'')),
                  (''feedback'', dget_or e ''feedback'' (JStr [])),
                  (''marksReceived'', marks_received e),
                  (''totalMarks'', total_marks e),
                  (''correctness'', JStr correctness)]))
      | _ \<Rightarrow> Inl AttributeError)"

fun normalize_errors :: "json list \<Rightarrow> exn + json list" where
  "normalize_errors [] = Inr []"
| "normalize_errors (error # errors) =
     (case normalize_error error of
        Inl x \<Rightarrow> Inl x
      | Inr n \<Rightarrow> (case normalize_errors errors of Inl x \<Rightarrow> Inl x | Inr ns \<Rightarrow> Inr (n # ns)))"


section \<open>The answer-position randomiser\<close>

text \<open>
  \<^verbatim>\<open>randomize_question_options\<close> of \<^verbatim>\<open>main.py\<close>. The records come from
  \<^verbatim>\<open>json.loads\<close>, so no two of them share an option object, and the in-place updates
  are modelled by returning the updated record. \<^verbatim>\<open>random.shuffle\<close> is the parameter
  \<open>shuffle\<close>: it gets the position of the record in the list and the copied option list.
\<close>

text \<open>\<^verbatim>\<open>p in s\<close> on two strings.\<close>

fun contains :: "string \<Rightarrow> string \<Rightarrow> bool" where
  "contains p [] = (p = [])"
| "contains p (c # cs) = (prefix p (c # cs) \<or> contains p cs)"

text \<open>\<^verbatim>\<open>"options" in question\<close>, for whatever value \<open>question\<close> is.\<close>

fun in_question :: "string \<Rightarrow> json \<Rightarrow> exn + bool" where
  "in_question k (JObj q) = Inr (has_key q k)"
| "in_question k (JStr s) = Inr (contains k s)"
| "in_question k (JArr xs) = Inr (list_ex (\<lambda>x. py_eq x (JStr k)) xs)"
| "in_question k _ = Inl TypeError"

text \<open>\<^verbatim>\<open>isinstance(opt, dict) and opt.get("id") == original_correct\<close>.\<close>

fun is_correct_option :: "json \<Rightarrow> json \<Rightarrow> bool" where
  "is_correct_option original_correct (JObj opt) = py_eq (dget opt ''id'') original_correct"
| "is_correct_option original_correct _ = False"

text \<open>Index of the first element that satisfies \<open>P\<close>, as the \<^verbatim>\<open>enumerate\<close> loop finds it.\<close>

fun first_index :: "('a \<Rightarrow> bool) \<Rightarrow> 'a list \<Rightarrow> nat option" where
  "first_index P [] = None"
| "first_index P (x # xs) =
     (if P x then Some 0 else (case first_index P xs of None \<Rightarrow> None | Some i \<Rightarrow> Some (Suc i)))"

text \<open>
  The loop \<^verbatim>\<open>for i, opt in enumerate(shuffled_options): opt["id"] = option_ids[i]\<close>:
  \<^verbatim>\<open>option_ids[i]\<close> raises \<^verbatim>\<open>IndexError\<close> when the ids are used up, the item assignment
  raises \<^verbatim>\<open>TypeError\<close> on anything but a dict.
\<close>

fun reassign_ids :: "string list \<Rightarrow> json list \<Rightarrow> exn + json list" where
  "reassign_ids ids [] = Inr []"
| "reassign_ids [] (opt # opts) = Inl IndexError"
| "reassign_ids (i # ids) (opt # opts) =
     (case opt of
        JObj d \<Rightarrow>
          (case reassign_ids ids opts of
             Inl x \<Rightarrow> Inl x
           | Inr opts' \<Rightarrow> Inr (JObj (dset d ''id'' (JStr i)) # opts'))
      | _ \<Rightarrow> Inl TypeError)"

definition randomize_question :: "(json list \<Rightarrow> json list) \<Rightarrow> json \<Rightarrow> exn + json" where
  "randomize_question shuffle question =
     (case in_question ''options'' question of
        Inl x \<Rightarrow> Inl x
      | Inr False \<Rightarrow> Inr question
      | Inr True \<Rightarrow>
          (case question of
             JObj q \<Rightarrow>
               (case dget q ''options'' of
                  JArr options \<Rightarrow>
                    if length options > 1 then
                      (let original_correct = dget_or q ''correctAnswer'' (JStr ''a'')
                       in case find (is_correct_option original_correct) options of
                            None \<Rightarrow> Inr question
                          | Some correct_option \<Rightarrow>
                              if truthy correct_option then
                                (let shuffled_options = shuffle options
                                 in case first_index (is_correct_option original_correct)
                                           shuffled_options of
                                      None \<Rightarrow> Inr question
                                    | Some idx \<Rightarrow>
                                        (let option_ids =
                                               take (length shuffled_options)
                                                 [''a'', ''b'', ''c'', ''d'', ''e'', ''f'']
                                         in case reassign_ids option_ids shuffled_options of
                                              Inl x \<Rightarrow> Inl x
                                            | Inr opts' \<Rightarrow>
                                                Inr (JObj
                                                  (dset (dset q ''correctAnswer''
                                                           (JStr (option_ids ! idx)))
                                                     ''options'' (JArr opts')))))
                              else Inr question)
                    else Inr question
                | _ \<Rightarrow> Inr question)
           | _ \<Rightarrow> Inl TypeError))"

fun randomize_from :: "(nat \<Rightarrow> json list \<Rightarrow> json list) \<Rightarrow> nat \<Rightarrow> json list \<Rightarrow> exn + json list" where
  "randomize_from shuffle n [] = Inr []"
| "randomize_from shuffle n (question # questions) =
     (case randomize_question (shuffle n) question of
        Inl x \<Rightarrow> Inl x
      | Inr q' \<Rightarrow>
          (case randomize_from shuffle (Suc n) questions of
             Inl x \<Rightarrow> Inl x
           | Inr qs' \<Rightarrow> Inr (q' # qs')))"

definition randomize_question_options ::
    "(nat \<Rightarrow> json list \<Rightarrow> json list) \<Rightarrow> json list \<Rightarrow> exn + json list" where
  "randomize_question_options shuffle questions = randomize_from shuffle 0 questions"

text \<open>What the claims observe of a record: its options, their texts, the option its
  correct-answer id refers to (looked up as the randomiser does).\<close>

definition options_of :: "json \<Rightarrow> json list" where
  "options_of question =
     (case question of
        JObj q \<Rightarrow> (case dget q ''options'' of JArr options \<Rightarrow> options | _ \<Rightarrow> [])
      | _ \<Rightarrow> [])"

fun option_text :: "json \<Rightarrow> json" where
  "option_text (JObj opt) = dget opt ''text''"
| "option_text v = v"

fun option_id :: "json \<Rightarrow> json" where
  "option_id (JObj opt) = dget opt ''id''"
| "option_id v = JNull"

definition correct_answer_of :: "json \<Rightarrow> json" where
  "correct_answer_of question =
     (case question of JObj q \<Rightarrow> dget_or q ''correctAnswer'' (JStr ''a'') | _ \<Rightarrow> JNull)"

definition referenced_option :: "json \<Rightarrow> json option" where
  "referenced_option question =
     find (is_correct_option (correct_answer_of question)) (options_of question)"

definition unique_correct :: "json \<Rightarrow> bool" where
  "unique_correct question =
     (length (filter (is_correct_option (correct_answer_of question)) (options_of question)) \<le> 1)"

text \<open>What the randomiser is claimed to keep of a record.\<close>

definition preserved :: "json \<Rightarrow> json \<Rightarrow> bool" where
  "preserved question question' =
     (image_mset option_text (mset (options_of question')) =
        image_mset option_text (mset (options_of question)) \<and>
      map_option option_text (referenced_option question') =
        map_option option_text (referenced_option question) \<and>
      (referenced_option question = None \<longrightarrow> question' = question))"

text \<open>A dict whose option list, if it has one, holds at most six dicts.\<close>

fun is_dict :: "json \<Rightarrow> bool" where
  "is_dict (JObj d) = True"
| "is_dict _ = False"

definition shuffle_safe :: "json \<Rightarrow> bool" where
  "shuffle_safe question =
     (is_dict question \<and> length (options_of question) \<le> 6 \<and>
      list_all is_dict (options_of question))"

section \<open>Validating quiz records\<close>

text \<open>
  The loop of \<^verbatim>\<open>generate_quiz_from_errors\<close> that validates and cleans the parsed
  questions. \<^verbatim>\<open>len(v)\<close> and the values a \<^verbatim>\<open>for\<close> loop over \<open>v\<close> visits:
\<close>

fun py_len :: "json \<Rightarrow> exn + nat" where
  "py_len (JStr s) = Inr (length s)"
| "py_len (JArr xs) = Inr (length xs)"
| "py_len (JObj d) = Inr (length d)"
| "py_len _ = Inl TypeError"

fun py_iter :: "json \<Rightarrow> exn + json list" where
  "py_iter (JArr xs) = Inr xs"
| "py_iter (JStr s) = Inr (map (\<lambda>c. JStr [c]) s)"
| "py_iter (JObj d) = Inr (map (\<lambda>kv. JStr (fst kv)) d)"
| "py_iter _ = Inl TypeError"

text \<open>\<^verbatim>\<open>chr(97 + n) if n < 26 else str(n)\<close>.\<close>

definition canonical_id :: "nat \<Rightarrow> string" where
  "canonical_id n = (if n < 26 then [char_of (97 + n)] else str_int (int n))"

text \<open>\<^verbatim>\<open>str.upper\<close>; it is applied to canonical ids only, which are ASCII.\<close>

definition upper_char :: "char \<Rightarrow> char" where
  "upper_char c =
     (let n = (of_char c :: nat) in if 97 \<le> n \<and> n \<le> 122 then char_of (n - 32) else c)"

text \<open>
  The loop over the options. In the branch for a dict, \<^verbatim>\<open>opt_id.upper()\<close> is evaluated
  only when both \<^verbatim>\<open>opt.get("text")\<close> and \<^verbatim>\<open>opt.get("id")\<close> are falsy, and then
  \<^verbatim>\<open>opt_id\<close> is the canonical id.
\<close>

fun normalize_options :: "json list \<Rightarrow> json list \<Rightarrow> json list" where
  "normalize_options [] valid_options = valid_options"
| "normalize_options (opt # opts) valid_options =
     (case opt of
        JObj d \<Rightarrow>
          if has_key d ''text'' \<or> has_key d ''id'' then
            (let opt_id = py_or (dget d ''id'') (JStr (canonical_id (length valid_options)));
                 opt_text =
                   py_or (py_or (dget d ''text'') (dget d ''id''))
                     (JStr (''Option '' @ map upper_char (canonical_id (length valid_options))))
             in normalize_options opts
                  (valid_options @ [JObj [(''id'', opt_id), (''text'', opt_text)]]))
          else normalize_options opts valid_options
      | JStr s \<Rightarrow>
          normalize_options opts
            (valid_options @
               [JObj [(''id'', JStr (canonical_id (length valid_options))), (''text'', JStr s)]])
      | _ \<Rightarrow> normalize_options opts valid_options)"

text \<open>
  One pass of the loop body with \<open>n\<close> questions validated so far: \<open>Inr None\<close> is
  \<^verbatim>\<open>continue\<close>. The warning logged for too few options formats \<^verbatim>\<open>len(options)\<close>,
  which raises for a falsy value without a length.
\<close>

definition validate_question :: "string list \<Rightarrow> nat \<Rightarrow> json \<Rightarrow> exn + json option" where
  "validate_question topics_list n question =
     (case question of
        JObj q \<Rightarrow>
          (let question_text = py_or (py_or (dget q ''text'') (dget q ''question'')) (JStr [])
           in if \<not> truthy question_text then Inr None
              else
                (case question_text of
                   JStr t \<Rightarrow>
                     if length (py_strip t) < 10 then Inr None
                     else
                       (let options = dget_or q ''options'' (JArr [])
                        in case py_len options of
                             Inl x \<Rightarrow> Inl x
                           | Inr l \<Rightarrow>
                               if \<not> truthy options \<or> l < 2 then Inr None
                               else
                                 (case py_iter options of
                                    Inl x \<Rightarrow> Inl x
                                  | Inr opts \<Rightarrow>
                                      (let valid_options = normalize_options opts []
                                       in if length valid_options < 2 then Inr None
                                          else
                                            Inr (Some (JObj
                                              [(''id'', py_or (dget q ''id'') (JStr (str_int (int n + 1)))),
                                               (''text'', JStr (py_strip t)),
                                               (''options'', JArr valid_options),
                                               (''correctAnswer'',
                                                  py_or (py_or (dget q ''correctAnswer'')
                                                           (dget q ''correct_answer''))
                                                    (option_id (hd valid_options))),
                                               (''explanation'', py_or (dget q ''explanation'') (JStr [])),
                                               (''topic'',
                                                  if topics_list \<noteq> []
                                                  then py_or (dget q ''topic'') (JStr (hd topics_list))
                                                  else JStr ''General'')])))))
                 | _ \<Rightarrow> Inl AttributeError))
      | _ \<Rightarrow> Inl AttributeError)"

fun validate_from :: "string list \<Rightarrow> json list \<Rightarrow> json list \<Rightarrow> exn + json list" where
  "validate_from topics_list validated_questions [] = Inr validated_questions"
| "validate_from topics_list validated_questions (q # parsed_questions) =
     (case validate_question topics_list (length validated_questions) q of
        Inl x \<Rightarrow> Inl x
      | Inr None \<Rightarrow> validate_from topics_list validated_questions parsed_questions
      | Inr (Some validated_q) \<Rightarrow>
          validate_from topics_list (validated_questions @ [validated_q]) parsed_questions)"

definition validate_questions :: "string list \<Rightarrow> json list \<Rightarrow> exn + json list" where
  "validate_questions topics_list parsed_questions = validate_from topics_list [] parsed_questions"

section \<open>Delimiter-balanced scanning\<close>

text \<open>
  The inner loop of \<^verbatim>\<open>_extract_questions_from_broken_json\<close>: \<^verbatim>\<open>for j in range(i, len(json_str))\<close>
  with its three variables, run over the text from position \<open>i\<close> on. The result is the
  index \<open>j\<close> of the closing brace, or \<open>None\<close> when the loop ends without \<^verbatim>\<open>break\<close>.
  \<open>CHR 0x5C\<close> is the backslash and \<open>CHR 0x22\<close> the double quote.
\<close>

fun scan_braces :: "int \<Rightarrow> bool \<Rightarrow> bool \<Rightarrow> nat \<Rightarrow> string \<Rightarrow> nat option" where
  "scan_braces brace_count in_string escape_next j [] = None"
| "scan_braces brace_count in_string escape_next j (char # rest) =
     (if escape_next then scan_braces brace_count in_string False (Suc j) rest
      else if char = CHR 0x5C then scan_braces brace_count in_string True (Suc j) rest
      else if char = CHR 0x22 then scan_braces brace_count (\<not> in_string) False (Suc j) rest
      else if \<not> in_string then
        (if char = CHR ''{'' then scan_braces (brace_count + 1) in_string False (Suc j) rest
         else if char = CHR ''}'' then
           (if brace_count - 1 = 0 then Some j
            else scan_braces (brace_count - 1) in_string False (Suc j) rest)
         else scan_braces brace_count in_string False (Suc j) rest)
      else scan_braces brace_count in_string False (Suc j) rest)"

text \<open>\<^verbatim>\<open>obj_str = json_str[start_pos : j + 1]\<close> for a text that starts at \<^verbatim>\<open>start_pos\<close>.\<close>

definition object_span :: "string \<Rightarrow> string option" where
  "object_span s =
     (case scan_braces 0 False False 0 s of None \<Rightarrow> None | Some j \<Rightarrow> Some (take (j + 1) s))"

text \<open>
  The bracket loop of \<^verbatim>\<open>parse_quiz_questions\<close> (strategy 2), run over the text from
  \<^verbatim>\<open>start_pos\<close> on: the result is \<^verbatim>\<open>end_pos\<close>, or \<open>None\<close> when the loop ends without
  \<^verbatim>\<open>break\<close> (then \<^verbatim>\<open>end_pos = start_pos\<close>).
\<close>

fun scan_brackets :: "int \<Rightarrow> nat \<Rightarrow> string \<Rightarrow> nat option" where
  "scan_brackets bracket_count i [] = None"
| "scan_brackets bracket_count i (char # rest) =
     (if char = CHR ''['' then scan_brackets (bracket_count + 1) (Suc i) rest
      else if char = CHR '']'' then
        (if bracket_count - 1 = 0 then Some (i + 1)
         else scan_brackets (bracket_count - 1) (Suc i) rest)
      else scan_brackets bracket_count (Suc i) rest)"

text \<open>
  The inside of a quoted string: characters other than the quote and the backslash, and
  escapes (a backslash and the character after it).
\<close>

fun string_body :: "string \<Rightarrow> bool" where
  "string_body [] = True"
| "string_body (c # cs) =
     (if c = CHR 0x5C then (case cs of [] \<Rightarrow> False | e # cs' \<Rightarrow> string_body cs')
      else c \<noteq> CHR 0x22 \<and> string_body cs)"

section \<open>The syntax repair pass\<close>


text \<open>
  \<^verbatim>\<open>_fix_json\<close>: three \<^verbatim>\<open>re.sub\<close> passes. Each pattern starts with a literal character
  and its repetitions are followed by a character they cannot match, so a match at a
  position is found without backtracking, and \<^verbatim>\<open>re.sub\<close> goes on right after it.

  \<^verbatim>\<open>re.sub(r",(\s*[}\]])", r"\1", json_str)\<close>: a comma whose following run of
  whitespace ends at a closing brace or bracket is replaced by that run and the closer.
\<close>

definition closes :: "string \<Rightarrow> bool" where
  "closes s = (case s of [] \<Rightarrow> False | d # ds \<Rightarrow> d = CHR ''}'' \<or> d = CHR '']'')"

lemma length_tl_dropWhile: "length (dropWhile P cs) - Suc 0 \<le> length cs"
  using length_dropWhile_le [of P cs] by simp

function remove_trailing_commas :: "string \<Rightarrow> string" where
  "remove_trailing_commas [] = []"
| "remove_trailing_commas (c # cs) =
     (if c = CHR '','' \<and> closes (dropWhile is_space cs)
      then takeWhile is_space cs @ hd (dropWhile is_space cs) #
           remove_trailing_commas (tl (dropWhile is_space cs))
      else c # remove_trailing_commas cs)"
  by pat_completeness auto
termination
  by (relation "measure length") (auto simp: less_Suc_eq_le length_tl_dropWhile)

text \<open>
  \<^verbatim>\<open>re.sub(r"(?<!\\)\n", "\\n", json_str)\<close>: the replacement is the two characters
  backslash and \<^verbatim>\<open>n\<close>, which \<^verbatim>\<open>re.sub\<close> reads as a template and expands to the newline
  character. \<open>CHR 0x0A\<close> is the newline.
\<close>

fun escape_newlines :: "bool \<Rightarrow> string \<Rightarrow> string" where
  "escape_newlines after_backslash [] = []"
| "escape_newlines after_backslash (c # cs) =
     (if c = CHR 0x0A \<and> \<not> after_backslash then [CHR 0x0A] @ escape_newlines False cs
      else c # escape_newlines (c = CHR 0x5C) cs)"

text \<open>
  \<^verbatim>\<open>re.sub(r"//.*?$", "", json_str, flags=re.MULTILINE)\<close>: from two slashes up to the
  next newline or the end of the text.
\<close>

definition comment_start :: "string \<Rightarrow> bool" where
  "comment_start s = (case s of c # d # ds \<Rightarrow> c = CHR ''/'' \<and> d = CHR ''/'' | _ \<Rightarrow> False)"

function remove_comments :: "string \<Rightarrow> string" where
  "remove_comments [] = []"
| "remove_comments (c # cs) =
     (if comment_start (c # cs)
      then remove_comments (dropWhile (\<lambda>x. x \<noteq> CHR 0x0A) (tl cs))
      else c # remove_comments cs)"
  by pat_completeness auto
termination
  by (relation "measure length")
     (auto simp: less_Suc_eq_le comment_start_def split: list.splits
           intro: le_trans [OF length_dropWhile_le])

definition fix_json :: "string \<Rightarrow> string" where
  "fix_json json_str = remove_comments (escape_newlines False (remove_trailing_commas json_str))"

text \<open>
  Texts on which the pass is stable: no comma is followed, after optional whitespace, by
  another comma or by a comment. And texts it leaves alone: no comma before a closer, no
  comment.
\<close>

definition starts_comma :: "string \<Rightarrow> bool" where
  "starts_comma s = (case s of [] \<Rightarrow> False | d # ds \<Rightarrow> d = CHR '','')"

fun repair_stable :: "string \<Rightarrow> bool" where
  "repair_stable [] = True"
| "repair_stable (c # cs) =
     ((c = CHR '','' \<longrightarrow>
         \<not> starts_comma (dropWhile is_space cs) \<and> \<not> comment_start (dropWhile is_space cs)) \<and>
      repair_stable cs)"

fun no_trailing_comma :: "string \<Rightarrow> bool" where
  "no_trailing_comma [] = True"
| "no_trailing_comma (c # cs) =
     (\<not> (c = CHR '','' \<and> closes (dropWhile is_space cs)) \<and> no_trailing_comma cs)"

fun no_comment :: "string \<Rightarrow> bool" where
  "no_comment [] = True"
| "no_comment (c # cs) = (\<not> comment_start (c # cs) \<and> no_comment cs)"

text \<open>No comma is followed, after optional whitespace, by a closer or by a comment.\<close>

fun comma_guarded :: "string \<Rightarrow> bool" where
  "comma_guarded [] = True"
| "comma_guarded (c # cs) =
     ((c = CHR '','' \<longrightarrow>
         \<not> closes (dropWhile is_space cs) \<and> \<not> comment_start (dropWhile is_space cs)) \<and>
      comma_guarded cs)"


section \<open>Parsing JSON\<close>

text \<open>
  \<^verbatim>\<open>json.loads\<close> of the standard library, on texts with code points below 256: a lexer
  and a stack automaton over its tokens. It accepts one JSON value with optional
  whitespace around it and nothing else; a repeated key keeps its first position and its
  last value. Not modelled: the literals \<^verbatim>\<open>NaN\<close> and \<^verbatim>\<open>Infinity\<close> and \<^verbatim>\<open>\u\<close> escapes above
  code point 255 (the model rejects them), and the recursion limit.
\<close>

datatype token =
    TLBrace | TRBrace | TLBrack | TRBrack | TColon | TComma
  | TString string
  | TAtom json

definition is_digit :: "char \<Rightarrow> bool" where
  "is_digit c = (let n = (of_char c :: nat) in 48 \<le> n \<and> n \<le> 57)"

definition nat_of_digits :: "string \<Rightarrow> nat" where
  "nat_of_digits ds = foldl (\<lambda>a c. 10 * a + (of_char c - 48)) 0 ds"

definition json_ws :: "char \<Rightarrow> bool" where
  "json_ws c = (c = CHR '' '' \<or> c = CHR 0x09 \<or> c = CHR 0x0A \<or> c = CHR 0x0D)"

definition hex_val :: "char \<Rightarrow> nat option" where
  "hex_val c =
     (let n = (of_char c :: nat)
      in if 48 \<le> n \<and> n \<le> 57 then Some (n - 48)
         else if 65 \<le> n \<and> n \<le> 70 then Some (n - 55)
         else if 97 \<le> n \<and> n \<le> 102 then Some (n - 87)
         else None)"

definition hex4 :: "string \<Rightarrow> nat option" where
  "hex4 s =
     (case map hex_val s of
        [Some a, Some b, Some c, Some d] \<Rightarrow> Some (((a * 16 + b) * 16 + c) * 16 + d)
      | _ \<Rightarrow> None)"

definition unescape :: "char \<Rightarrow> char option" where
  "unescape e =
     (if e = CHR 0x22 \<or> e = CHR 0x5C \<or> e = CHR ''/'' then Some e
      else if e = CHR ''b'' then Some (CHR 0x08)
      else if e = CHR ''f'' then Some (CHR 0x0C)
      else if e = CHR ''n'' then Some (CHR 0x0A)
      else if e = CHR ''r'' then Some (CHR 0x0D)
      else if e = CHR ''t'' then Some (CHR 0x09)
      else None)"

text \<open>The text after an opening quote: the decoded string and what follows the closing
  quote. A control character inside the string is an error.\<close>

fun lex_string :: "string \<Rightarrow> (string \<times> string) option" where
  "lex_string [] = None"
| "lex_string (c # cs) =
     (if c = CHR 0x22 then Some ([], cs)
      else if c = CHR 0x5C then
        (case cs of
           [] \<Rightarrow> None
         | e # cs' \<Rightarrow>
             if e = CHR ''u'' then
               (case hex4 (take 4 cs') of
                  None \<Rightarrow> None
                | Some n \<Rightarrow>
                    if n < 256 then
                      (case lex_string (drop 4 cs') of
                         None \<Rightarrow> None
                       | Some (s, rest) \<Rightarrow> Some (char_of n # s, rest))
                    else None)
             else
               (case unescape e of
                  None \<Rightarrow> None
                | Some d \<Rightarrow>
                    (case lex_string cs' of
                       None \<Rightarrow> None
                     | Some (s, rest) \<Rightarrow> Some (d # s, rest))))
      else if (of_char c :: nat) < 32 then None
      else (case lex_string cs of None \<Rightarrow> None | Some (s, rest) \<Rightarrow> Some (c # s, rest)))"

text \<open>
  A number is the longest text that matches
  \<^verbatim>\<open>-?(0|[1-9][0-9]*)(\.[0-9]+)?([eE][-+]?[0-9]+)?\<close>; it is a float when it has a fraction
  or an exponent.
\<close>

definition lex_int_part :: "string \<Rightarrow> (string \<times> string) option" where
  "lex_int_part s =
     (case s of
        [] \<Rightarrow> None
      | c # cs \<Rightarrow>
          if c = CHR ''0'' then Some ([c], cs)
          else if is_digit c then Some (takeWhile is_digit s, dropWhile is_digit s)
          else None)"

definition lex_frac :: "string \<Rightarrow> string \<times> string" where
  "lex_frac s =
     (case s of
        c # d # ds \<Rightarrow>
          if c = CHR ''.'' \<and> is_digit d
          then (takeWhile is_digit (d # ds), dropWhile is_digit (d # ds))
          else ([], s)
      | _ \<Rightarrow> ([], s))"

definition lex_exp :: "string \<Rightarrow> int option \<times> string" where
  "lex_exp s =
     (case s of
        [] \<Rightarrow> (None, s)
      | e # cs \<Rightarrow>
          if e = CHR ''e'' \<or> e = CHR ''E'' then
            (let (sgn, ds) =
                   (case cs of
                      [] \<Rightarrow> (1, cs)
                    | g # r \<Rightarrow>
                        if g = CHR ''+'' then (1, r) else if g = CHR ''-'' then (- 1, r) else (1, cs))
             in case ds of
                  [] \<Rightarrow> (None, s)
                | d # r \<Rightarrow>
                    if is_digit d
                    then (Some (sgn * int (nat_of_digits (takeWhile is_digit ds))),
                          dropWhile is_digit ds)
                    else (None, s))
          else (None, s))"

definition lex_number :: "string \<Rightarrow> (json \<times> string) option" where
  "lex_number s =
     (let (neg, s1) = (case s of [] \<Rightarrow> (False, s) | c # r \<Rightarrow> if c = CHR ''-'' then (True, r) else (False, s))
      in case lex_int_part s1 of
           None \<Rightarrow> None
         | Some (ip, s2) \<Rightarrow>
             (let (fp, s3) = lex_frac s2; (ex, s4) = lex_exp s3
              in if fp = [] \<and> ex = None
                 then Some (JInt ((if neg then - 1 else 1) * int (nat_of_digits ip)), s4)
                 else Some (JFloat ((if neg then - 1 else 1) *
                        (of_nat (nat_of_digits ip) + of_nat (nat_of_digits fp) / 10 ^ length fp) *
                        (case ex of None \<Rightarrow> 1
                         | Some x \<Rightarrow> if x < 0 then 1 / 10 ^ nat (- x) else 10 ^ nat x)), s4)))"

lemma lex_string_length: "lex_string cs = Some (s, rest) \<Longrightarrow> length rest < Suc (length cs)"
proof (induction cs arbitrary: s rest rule: lex_string.induct)
  case 1
  then show ?case by simp
next
  case (2 c cs)
  show ?case
  proof (cases "c = CHR 0x22")
    case True
    with "2.prems" show ?thesis by simp
  next
    case q: False
    show ?thesis
    proof (cases "c = CHR 0x5C")
      case True
      with q "2.prems" obtain e cs' where cs: "cs = e # cs'"
        by (cases cs) auto
      show ?thesis
      proof (cases "e = CHR ''u''")
        case u: True
        with q True cs "2.prems" obtain n s' where h: "hex4 (take 4 cs') = Some n" "n < 256"
          and l: "lex_string (drop 4 cs') = Some (s', rest)"
          by (auto split: option.splits if_splits)
        from "2.IH"(1) [OF q True cs u h l] show ?thesis using cs by simp
      next
        case u: False
        with q True cs "2.prems" obtain d s' where h: "unescape e = Some d"
          and l: "lex_string cs' = Some (s', rest)"
          by (auto split: option.splits if_splits)
        from "2.IH"(2) [OF q True cs u h l] show ?thesis using cs by simp
      qed
    next
      case False
      with q "2.prems" obtain s' where c: "\<not> (of_char c :: nat) < 32"
        and l: "lex_string cs = Some (s', rest)"
        by (auto split: option.splits if_splits)
      from "2.IH"(3) [OF q False c l] show ?thesis by simp
    qed
  qed
qed

lemma lex_frac_length: "lex_frac s = (fp, r) \<Longrightarrow> length r \<le> length s"
  by (auto simp: lex_frac_def split: list.splits if_splits
           intro: le_trans [OF length_dropWhile_le])

lemma lex_exp_length: "lex_exp s = (ex, r) \<Longrightarrow> length r \<le> length s"
  by (auto simp: lex_exp_def Let_def split: list.splits if_splits prod.splits
           intro: le_trans [OF length_dropWhile_le])

lemma lex_int_part_length: "lex_int_part s = Some (ip, r) \<Longrightarrow> length r < length s"
  by (auto simp: lex_int_part_def less_Suc_eq_le split: list.splits if_splits
           intro: length_dropWhile_le)

lemma lex_number_length: "lex_number s = Some (v, rest) \<Longrightarrow> length rest < length s"
proof -
  assume a: "lex_number s = Some (v, rest)"
  obtain neg s1 where n: "(case s of [] \<Rightarrow> (False, s) | c # r \<Rightarrow> if c = CHR ''-'' then (True, r) else (False, s)) = (neg, s1)"
    by (cases "(case s of [] \<Rightarrow> (False, s) | c # r \<Rightarrow> if c = CHR ''-'' then (True, r) else (False, s))") auto
  then have l1: "length s1 \<le> length s" by (auto split: list.splits if_splits)
  from a n obtain ip s2 where i: "lex_int_part s1 = Some (ip, s2)"
    by (auto simp: lex_number_def split: option.splits)
  obtain fp s3 where f: "lex_frac s2 = (fp, s3)" by (cases "lex_frac s2") auto
  obtain ex s4 where e: "lex_exp s3 = (ex, s4)" by (cases "lex_exp s3") auto
  from a n i f e have "rest = s4" by (auto simp: lex_number_def split: if_splits)
  with lex_int_part_length [OF i] lex_frac_length [OF f] lex_exp_length [OF e] l1
  show ?thesis by simp
qed

function tokenize :: "string \<Rightarrow> token list option" where
  "tokenize [] = Some []"
| "tokenize (c # cs) =
     (if json_ws c then tokenize cs
      else if c = CHR ''{'' then map_option (Cons TLBrace) (tokenize cs)
      else if c = CHR ''}'' then map_option (Cons TRBrace) (tokenize cs)
      else if c = CHR ''['' then map_option (Cons TLBrack) (tokenize cs)
      else if c = CHR '']'' then map_option (Cons TRBrack) (tokenize cs)
      else if c = CHR '':'' then map_option (Cons TColon) (tokenize cs)
      else if c = CHR '','' then map_option (Cons TComma) (tokenize cs)
      else if c = CHR 0x22 then
        (case lex_string cs of
           None \<Rightarrow> None
         | Some (s, rest) \<Rightarrow> map_option (Cons (TString s)) (tokenize rest))
      else if prefix ''null'' (c # cs) then map_option (Cons (TAtom JNull)) (tokenize (drop 3 cs))
      else if prefix ''true'' (c # cs) then map_option (Cons (TAtom (JBool True))) (tokenize (drop 3 cs))
      else if prefix ''false'' (c # cs) then map_option (Cons (TAtom (JBool False))) (tokenize (drop 4 cs))
      else
        (case lex_number (c # cs) of
           None \<Rightarrow> None
         | Some (v, rest) \<Rightarrow> map_option (Cons (TAtom v)) (tokenize rest)))"
  by pat_completeness auto
termination
  by (relation "measure length")
     (auto dest: lex_string_length lex_number_length)

text \<open>
  The automaton: a stack of the containers that are open, each with what it holds so far
  (a dict also with the key that waits for its value), and what may come next.
\<close>

datatype frame = InArr "json list" | InObj "(string \<times> json) list" string

datatype mode =
    ExpValue | ExpValueOrClose | ExpKeyOrClose | ExpKey | ExpColon | AfterValue | Done json

fun deliver :: "json \<Rightarrow> frame list \<Rightarrow> mode \<times> frame list" where
  "deliver v [] = (Done v, [])"
| "deliver v (InArr xs # st) = (AfterValue, InArr (xs @ [v]) # st)"
| "deliver v (InObj kvs k # st) = (AfterValue, InObj (dset kvs k v) k # st)"

fun step :: "mode \<Rightarrow> frame list \<Rightarrow> token \<Rightarrow> (mode \<times> frame list) option" where
  "step (Done v) st t = None"
| "step ExpColon st t = (if t = TColon then Some (ExpValue, st) else None)"
| "step AfterValue (InArr xs # st) t =
     (if t = TComma then Some (ExpValue, InArr xs # st)
      else if t = TRBrack then Some (deliver (JArr xs) st)
      else None)"
| "step AfterValue (InObj kvs k # st) t =
     (if t = TComma then Some (ExpKey, InObj kvs k # st)
      else if t = TRBrace then Some (deliver (JObj kvs) st)
      else None)"
| "step AfterValue [] t = None"
| "step ExpKey (InObj kvs k # st) (TString s) = Some (ExpColon, InObj kvs s # st)"
| "step ExpKey st t = None"
| "step ExpKeyOrClose (InObj kvs k # st) (TString s) = Some (ExpColon, InObj kvs s # st)"
| "step ExpKeyOrClose (InObj kvs k # st) TRBrace = Some (deliver (JObj kvs) st)"
| "step ExpKeyOrClose st t = None"
| "step ExpValueOrClose (InArr xs # st) TRBrack = Some (deliver (JArr xs) st)"
| "step m st (TAtom v) = Some (deliver v st)"
| "step m st (TString s) = Some (deliver (JStr s) st)"
| "step m st TLBrack = Some (ExpValueOrClose, InArr [] # st)"
| "step m st TLBrace = Some (ExpKeyOrClose, InObj [] [] # st)"
| "step m st t = None"

fun run :: "mode \<Rightarrow> frame list \<Rightarrow> token list \<Rightarrow> json option" where
  "run m st [] = (case m of Done v \<Rightarrow> Some v | _ \<Rightarrow> None)"
| "run m st (t # ts) = (case step m st t of None \<Rightarrow> None | Some (m', st') \<Rightarrow> run m' st' ts)"

definition json_loads :: "string \<Rightarrow> json option" where
  "json_loads s = (case tokenize s of None \<Rightarrow> None | Some ts \<Rightarrow> run ExpValue [] ts)"


section \<open>The per-record salvage scanner\<close>

text \<open>
  The regular expressions of the salvage code are sequences of literals, \<^verbatim>\<open>\s*\<close> and
  \<^verbatim>\<open>[^c]*c\<close>, and each repetition is followed by a character it cannot match: a match at a
  position is found without backtracking. \<open>match_items\<close> returns what follows the match.
\<close>

datatype item = Lit string | Spaces | Until char

fun match_items :: "item list \<Rightarrow> string \<Rightarrow> string option" where
  "match_items [] s = Some s"
| "match_items (Lit l # items) s =
     (if prefix l s then match_items items (drop (length l) s) else None)"
| "match_items (Spaces # items) s = match_items items (dropWhile is_space s)"
| "match_items (Until c # items) s =
     (case dropWhile (\<lambda>x. x \<noteq> c) s of [] \<Rightarrow> None | x # rest \<Rightarrow> match_items items rest)"

text \<open>\<^verbatim>\<open>re.finditer\<close>: the matches from left to right, each search going on where the
  last match ended. (The patterns used start with a literal, so no match is empty.)\<close>

function find_all :: "item list \<Rightarrow> string \<Rightarrow> string list" where
  "find_all p [] = []"
| "find_all p (c # cs) =
     (case match_items p (c # cs) of
        None \<Rightarrow> find_all p cs
      | Some rest \<Rightarrow>
          if length rest < length (c # cs)
          then take (length (c # cs) - length rest) (c # cs) # find_all p rest
          else find_all p cs)"
  by pat_completeness auto
termination
  by (relation "measure (\<lambda>(p, s). length s)") auto

text \<open>\<^verbatim>\<open>re.search(p, s).end()\<close>.\<close>

fun search_end :: "item list \<Rightarrow> string \<Rightarrow> nat option" where
  "search_end p [] = None"
| "search_end p (c # cs) =
     (case match_items p (c # cs) of
        Some rest \<Rightarrow> Some (length (c # cs) - length rest)
      | None \<Rightarrow> (case search_end p cs of None \<Rightarrow> None | Some e \<Rightarrow> Some (Suc e)))"

text \<open>
  \<^verbatim>\<open>\{"id"\s*:\s*"[^"]*"\s*,\s*"text"\s*:\s*"[^"]*"\s*,\s*"options"\s*:\s*\[[^\]]*\]\<close> and
  \<^verbatim>\<open>"options"\s*:\s*\[.*?\]\<close> (with \<^verbatim>\<open>re.DOTALL\<close>).
\<close>

definition question_pattern :: "item list" where
  \<open>question_pattern =
     [Lit ''{"id"'', Spaces, Lit '':'', Spaces, Lit ''"'', Until (CHR 0x22), Spaces, Lit '','', Spaces,
      Lit ''"text"'', Spaces, Lit '':'', Spaces, Lit ''"'', Until (CHR 0x22), Spaces, Lit '','', Spaces,
      Lit ''"options"'', Spaces, Lit '':'', Spaces, Lit ''['', Until (CHR '']'')]\<close>

definition options_pattern :: "item list" where
  \<open>options_pattern = [Lit ''"options"'', Spaces, Lit '':'', Spaces, Lit ''['', Until (CHR '']'')]\<close>

text \<open>\<^verbatim>\<open>if not obj.get(k): obj[k] = v\<close>, and the four defaults of a salvaged question.\<close>

definition set_default :: "string \<Rightarrow> json \<Rightarrow> (string \<times> json) list \<Rightarrow> (string \<times> json) list" where
  "set_default k v obj = (if \<not> truthy (dget obj k) then dset obj k v else obj)"

definition fill_defaults :: "string \<Rightarrow> (string \<times> json) list \<Rightarrow> (string \<times> json) list" where
  "fill_defaults new_id obj =
     set_default ''topic'' (JStr ''General'')
       (set_default ''explanation'' (JStr ''Generated question'')
          (set_default ''correctAnswer'' (JStr ''a'')
             (set_default ''id'' (JStr new_id) obj)))"

text \<open>
  What the balanced-brace pass does with a closed span \<^verbatim>\<open>obj_str\<close>: the body of its
  \<^verbatim>\<open>try\<close>. A span that does not parse, or is no question, leaves \<^verbatim>\<open>questions\<close> as it is.
\<close>

definition salvage_object :: "string \<Rightarrow> json list \<Rightarrow> json list" where
  "salvage_object obj_str questions =
     (case json_loads obj_str of
        Some (JObj obj) \<Rightarrow>
          if has_key obj ''text'' \<and> has_key obj ''options'' then
            (case dget obj ''options'' of
               JArr options \<Rightarrow>
                 if length options \<ge> 2
                 then questions @ [JObj (fill_defaults (str_int (int (length questions) + 1)) obj)]
                 else questions
             | _ \<Rightarrow> questions)
          else questions
      | _ \<Rightarrow> questions)"


text \<open>
  The \<^verbatim>\<open>while i < len(json_str)\<close> loop, on the text from \<open>i\<close> on: at a brace that closes
  at \<open>j\<close> it goes on at \<open>j + 1\<close>, at one that never closes (the \<^verbatim>\<open>else\<close> of the
  \<^verbatim>\<open>for\<close>) and at any other character it goes on at \<open>i + 1\<close>.
\<close>

function salvage_scan :: "string \<Rightarrow> json list \<Rightarrow> json list" where
  "salvage_scan [] questions = questions"
| "salvage_scan (c # cs) questions =
     (if c = CHR ''{'' then
        (case scan_braces 0 False False 0 (c # cs) of
           Some j \<Rightarrow>
             salvage_scan (drop (j + 1) (c # cs)) (salvage_object (take (j + 1) (c # cs)) questions)
         | None \<Rightarrow> salvage_scan cs questions)
      else salvage_scan cs questions)"
  by pat_completeness auto
termination
  by (relation "measure (\<lambda>(s, q). length s)") auto

text \<open>
  The regex fallback, run when the first pass found nothing: each match is cut after its
  options array, closed with a brace and parsed. \<open>i\<close> counts the matches from 1.
\<close>

definition complete_partial :: "nat \<Rightarrow> string \<Rightarrow> json list \<Rightarrow> json list" where
  "complete_partial i obj_str questions =
     (if \<not> suffix ''}'' obj_str then
        (case search_end options_pattern obj_str of
           None \<Rightarrow> questions
         | Some options_end \<Rightarrow>
             (let partial_obj = take options_end obj_str @ ''}''
              in case json_loads partial_obj of
                   Some (JObj obj) \<Rightarrow>
                     if has_key obj ''text'' \<and> has_key obj ''options''
                     then questions @ [JObj (fill_defaults (str_int (int i)) obj)]
                     else questions
                 | _ \<Rightarrow> questions))
      else questions)"

fun complete_partials :: "nat \<Rightarrow> string list \<Rightarrow> json list \<Rightarrow> json list" where
  "complete_partials i [] questions = questions"
| "complete_partials i (obj_str # matches) questions =
     complete_partials (Suc i) matches (complete_partial i obj_str questions)"

definition extract_questions_from_broken_json :: "string \<Rightarrow> json list" where
  "extract_questions_from_broken_json json_str =
     (let questions = salvage_scan json_str []
      in if questions = [] then complete_partials 1 (find_all question_pattern json_str) questions
         else questions)"


section \<open>The tiered extractor for quiz questions\<close>

text \<open>
  Strategy 1 of \<^verbatim>\<open>parse_quiz_questions\<close>: \<^verbatim>\<open>re.search\<close> for three backquotes
  (\<open>CHR 0x60\<close>), an optional \<^verbatim>\<open>json\<close>, whitespace and \<^verbatim>\<open>(\[.*?\])\<close> up to the first
  bracket that is followed by whitespace and three backquotes. The result is group 1.
\<close>

definition fence :: string where
  "fence = [CHR 0x60, CHR 0x60, CHR 0x60]"

fun to_fence :: "string \<Rightarrow> string \<Rightarrow> string option" where
  "to_fence matched [] = None"
| "to_fence matched (c # cs) =
     (if c = CHR '']'' \<and> prefix fence (dropWhile is_space cs) then Some (matched @ [c])
      else to_fence (matched @ [c]) cs)"

definition code_block_at :: "string \<Rightarrow> string option" where
  "code_block_at s =
     (if prefix fence s then
        (let r = drop 3 s;
             r1 = (if prefix ''json'' r then drop 4 r else r)
         in case dropWhile is_space r1 of
              [] \<Rightarrow> None
            | c # cs \<Rightarrow> if c = CHR ''['' then to_fence [c] cs else None)
      else None)"

fun find_code_block :: "string \<Rightarrow> string option" where
  "find_code_block [] = None"
| "find_code_block (c # cs) =
     (case code_block_at (c # cs) of Some matched \<Rightarrow> Some matched | None \<Rightarrow> find_code_block cs)"

text \<open>\<^verbatim>\<open>isinstance(questions, list) and len(questions) > 0\<close>, and the update of
  \<^verbatim>\<open>best_questions\<close> under \<^verbatim>\<open>isinstance(questions, list) and len(questions) > len(best_questions)\<close>.\<close>

definition nonempty_list :: "json \<Rightarrow> bool" where
  "nonempty_list questions = (case questions of JArr qs \<Rightarrow> length qs > 0 | _ \<Rightarrow> False)"

definition longer_list :: "json \<Rightarrow> json list \<Rightarrow> json list" where
  "longer_list questions best_questions =
     (case questions of
        JArr qs \<Rightarrow> if length qs > length best_questions then qs else best_questions
      | _ \<Rightarrow> best_questions)"

text \<open>
  Strategy 2, the body of the loop over the positions of \<^verbatim>\<open>[\<close>, on the text from that
  position on: the bracket scan, the length test and the three attempts.
\<close>

definition try_array :: "string \<Rightarrow> json list \<Rightarrow> json list" where
  "try_array s best_questions =
     (case scan_brackets 0 0 s of
        None \<Rightarrow> best_questions
      | Some end_pos \<Rightarrow>
          (let json_str = take end_pos s
           in if length json_str > 100 then
                (case json_loads json_str of
                   Some questions \<Rightarrow> longer_list questions best_questions
                 | None \<Rightarrow>
                     (let fixed = fix_json json_str
                      in case json_loads fixed of
                           Some questions \<Rightarrow> longer_list questions best_questions
                         | None \<Rightarrow>
                             (let extracted = extract_questions_from_broken_json json_str
                              in if length extracted > length best_questions then extracted
                                 else best_questions)))
              else best_questions))"

fun best_array :: "string \<Rightarrow> json list \<Rightarrow> json list" where
  "best_array [] best_questions = best_questions"
| "best_array (c # cs) best_questions =
     best_array cs (if c = CHR ''['' then try_array (c # cs) best_questions else best_questions)"

text \<open>
  The fallback \<^verbatim>\<open>re.search(r"(\[[\s\S]{100,}\])", ai_response)\<close>: greedy, so from the first
  \<^verbatim>\<open>[\<close> that has the last \<^verbatim>\<open>]\<close> of the text at least 101 characters after it, up to that
  bracket.
\<close>

definition upto_last_close :: "string \<Rightarrow> string" where
  "upto_last_close s = rev (dropWhile (\<lambda>x. x \<noteq> CHR '']'') (rev s))"

fun find_long_array :: "string \<Rightarrow> string option" where
  "find_long_array [] = None"
| "find_long_array (c # cs) =
     (if c = CHR ''['' \<and> length (upto_last_close (c # cs)) \<ge> 102
      then Some (upto_last_close (c # cs))
      else find_long_array cs)"

text \<open>
  \<^verbatim>\<open>\{[\s\S]*?KEY[\s\S]*?\}\<close> (also \<^verbatim>\<open>\{.*?KEY.*?\}\<close> with \<^verbatim>\<open>re.DOTALL\<close>): from the
  first brace over the first \<open>key\<close> after it to the first closing brace after that.
\<close>

fun split_sub :: "string \<Rightarrow> string \<Rightarrow> (string \<times> string) option" where
  "split_sub kw [] = (if kw = [] then Some ([], []) else None)"
| "split_sub kw (c # cs) =
     (if prefix kw (c # cs) then Some ([], drop (length kw) (c # cs))
      else (case split_sub kw cs of None \<Rightarrow> None | Some (b, a) \<Rightarrow> Some (c # b, a)))"

definition find_keyed_object :: "string \<Rightarrow> string \<Rightarrow> string option" where
  "find_keyed_object key s =
     (case dropWhile (\<lambda>x. x \<noteq> CHR ''{'') s of
        [] \<Rightarrow> None
      | b # r \<Rightarrow>
          (case split_sub key r of
             None \<Rightarrow> None
           | Some (before, after) \<Rightarrow>
               if CHR ''}'' \<in> set after
               then Some (b # before @ key @ takeWhile (\<lambda>x. x \<noteq> CHR ''}'') after @ ''}'')
               else None))"

text \<open>The strategies; \<open>None\<close> means that the code goes on to the next one.\<close>

definition strategy_code_block :: "string \<Rightarrow> json option" where
  "strategy_code_block ai_response =
     (case find_code_block ai_response of
        None \<Rightarrow> None
      | Some json_str \<Rightarrow>
          (case json_loads json_str of
             Some questions \<Rightarrow> if nonempty_list questions then Some questions else None
           | None \<Rightarrow> None))"

definition strategy_long_array :: "string \<Rightarrow> json option" where
  "strategy_long_array ai_response =
     (case find_long_array ai_response of
        None \<Rightarrow> None
      | Some json_str \<Rightarrow>
          (case json_loads json_str of
             Some questions \<Rightarrow> if nonempty_list questions then Some questions else None
           | None \<Rightarrow>
               (let json_str = fix_json json_str
                in case json_loads json_str of
                     Some questions \<Rightarrow> if nonempty_list questions then Some questions else None
                   | None \<Rightarrow>
                       (let questions = extract_questions_from_broken_json json_str
                        in if questions \<noteq> [] then Some (JArr questions)
                           else
                             (let questions = extract_questions_from_broken_json ai_response
                              in if questions \<noteq> [] then Some (JArr questions) else None)))))"

definition strategy_questions_object :: "string \<Rightarrow> json option" where
  \<open>strategy_questions_object ai_response =
     (case find_keyed_object ''"questions"'' ai_response of
        None \<Rightarrow> None
      | Some json_str \<Rightarrow>
          (case json_loads json_str of
             Some (JObj data) \<Rightarrow>
               if has_key data ''questions'' \<and> nonempty_list (dget data ''questions'')
               then Some (dget data ''questions'') else None
           | _ \<Rightarrow> None))\<close>

text \<open>
  Strategy 5, \<^verbatim>\<open>_extract_questions_from_text\<close>: \<^verbatim>\<open>re.finditer\<close> of
  \<^verbatim>\<open>(?:Question|Q)\s*\d+[:\s]+(.+?)(?=(?:Question|Q)\s*\d+|$)\<close>, ignoring case, the dot
  matching newlines. \<open>match_question\<close> gives group 1 and the text after the match; when
  the separators reach the end of the text, the last of them is given back to the group.
\<close>

definition is_sep :: "char \<Rightarrow> bool" where
  "is_sep c = (c = CHR '':'' \<or> is_space c)"

definition ci_prefix :: "string \<Rightarrow> string \<Rightarrow> bool" where
  "ci_prefix kw s = (length kw \<le> length s \<and> py_lower (take (length kw) s) = kw)"

definition after_number :: "string \<Rightarrow> string option" where
  "after_number r =
     (case dropWhile is_space r of
        [] \<Rightarrow> None
      | d # ds \<Rightarrow> if is_digit d then Some (dropWhile is_digit (d # ds)) else None)"

definition q_head :: "string \<Rightarrow> string option" where
  "q_head s =
     (case (if ci_prefix ''question'' s then after_number (drop 8 s) else None) of
        Some r \<Rightarrow> Some r
      | None \<Rightarrow> if ci_prefix ''q'' s then after_number (drop 1 s) else None)"

definition at_end :: "string \<Rightarrow> bool" where
  "at_end s = (s = [] \<or> s = [CHR 0x0A])"

fun lazy_until :: "(string \<Rightarrow> bool) \<Rightarrow> string \<Rightarrow> string \<Rightarrow> string \<times> string" where
  "lazy_until stop matched [] = (matched, [])"
| "lazy_until stop matched (c # cs) =
     (if stop (c # cs) then (matched, c # cs) else lazy_until stop (matched @ [c]) cs)"

definition match_question :: "string \<Rightarrow> (string \<times> string) option" where
  "match_question s =
     (case q_head s of
        None \<Rightarrow> None
      | Some r \<Rightarrow>
          (let run = takeWhile is_sep r
           in if run = [] then None
              else
                (case dropWhile is_sep r of
                   [] \<Rightarrow> if length run < 2 then None else Some ([last run], [])
                 | c # cs \<Rightarrow>
                     Some (lazy_until (\<lambda>t. q_head t \<noteq> None \<or> at_end t) [c] cs))))"

function text_matches :: "string \<Rightarrow> string list" where
  "text_matches [] = []"
| "text_matches (c # cs) =
     (case match_question (c # cs) of
        None \<Rightarrow> text_matches cs
      | Some (matched, rest) \<Rightarrow>
          if length rest < length (c # cs) then matched # text_matches rest else text_matches cs)"
  by pat_completeness auto
termination
  by (relation "measure length") auto

definition placeholder_question :: "nat \<Rightarrow> string \<Rightarrow> json" where
  "placeholder_question i question_text =
     JObj [(''id'', JStr (str_int (int i))),
           (''text'', JStr (take 200 question_text)),
           (''options'',
              JArr [JObj [(''id'', JStr ''a''), (''text'', JStr ''Option A'')],
                    JObj [(''id'', JStr ''b''), (''text'', JStr ''Option B'')],
                    JObj [(''id'', JStr ''c''), (''text'', JStr ''Option C'')],
                    JObj [(''id'', JStr ''d''), (''text'', JStr ''Option D'')]]),
           (''correctAnswer'', JStr ''a''),
           (''explanation'', JStr ''Generated from AI response''),
           (''topic'', JStr ''General'')]"

fun questions_from_matches :: "nat \<Rightarrow> string list \<Rightarrow> json list" where
  "questions_from_matches i [] = []"
| "questions_from_matches i (matched # matches) =
     (let question_text = py_strip matched
      in if length question_text > 20
         then placeholder_question i question_text # questions_from_matches (Suc i) matches
         else questions_from_matches (Suc i) matches)"

definition extract_questions_from_text :: "string \<Rightarrow> json list" where
  "extract_questions_from_text text = questions_from_matches 1 (text_matches text)"

text \<open>
  \<^verbatim>\<open>parse_quiz_questions\<close>. The result is the Python value returned. Inside the \<^verbatim>\<open>try\<close>
  only \<^verbatim>\<open>json.loads\<close> raises, and each call has its own handler, so the outer handler
  (which returns the empty list) is never reached in the model.
\<close>

definition parse_quiz_questions :: "string \<Rightarrow> json" where
  "parse_quiz_questions ai_response =
     (case strategy_code_block ai_response of
        Some questions \<Rightarrow> questions
      | None \<Rightarrow>
          (let best_questions = best_array ai_response []
           in if best_questions \<noteq> [] then JArr best_questions
              else
                (case strategy_long_array ai_response of
                   Some questions \<Rightarrow> questions
                 | None \<Rightarrow>
                     (case strategy_questions_object ai_response of
                        Some questions \<Rightarrow> questions
                      | None \<Rightarrow>
                          (let questions = extract_questions_from_broken_json ai_response
                           in if questions \<noteq> [] then JArr questions
                              else
                                (let questions = extract_questions_from_text ai_response
                                 in if questions \<noteq> [] then JArr questions else JArr []))))))"


section \<open>The tiered extractor for assessment errors\<close>

text \<open>
  \<^verbatim>\<open>parse_midterm_analysis\<close>. Its three searches for a JSON text, each with
  \<^verbatim>\<open>re.DOTALL\<close>: \<^verbatim>\<open>\[.*?\]\<close>, then \<^verbatim>\<open>\{.*?"errors".*?\}\<close>, then \<^verbatim>\<open>\{.*?\}|\[.*?\]\<close>.
\<close>

definition first_span :: "char \<Rightarrow> char \<Rightarrow> string \<Rightarrow> string option" where
  "first_span opening closing s =
     (case dropWhile (\<lambda>x. x \<noteq> opening) s of
        [] \<Rightarrow> None
      | b # r \<Rightarrow>
          if closing \<in> set r then Some (b # takeWhile (\<lambda>x. x \<noteq> closing) r @ [closing])
          else None)"

fun find_any_json :: "string \<Rightarrow> string option" where
  "find_any_json [] = None"
| "find_any_json (c # cs) =
     (if c = CHR ''{'' \<and> CHR ''}'' \<in> set cs
      then Some (c # takeWhile (\<lambda>x. x \<noteq> CHR ''}'') cs @ ''}'')
      else if c = CHR ''['' \<and> CHR '']'' \<in> set cs
      then Some (c # takeWhile (\<lambda>x. x \<noteq> CHR '']'') cs @ '']'')
      else find_any_json cs)"

text \<open>
  \<^verbatim>\<open>_extract_errors_from_broken_json\<close>: \<^verbatim>\<open>re.finditer\<close> of \<^verbatim>\<open>\{"question"[^}]*\}\<close>, each
  match parsed on its own and kept when it parses.
\<close>

definition error_object_pattern :: "item list" where
  \<open>error_object_pattern = [Lit ''{"question"'', Until (CHR ''}'')]\<close>

fun loads_each :: "string list \<Rightarrow> json list" where
  "loads_each [] = []"
| "loads_each (m # matches) =
     (case json_loads m of
        Some error_obj \<Rightarrow> error_obj # loads_each matches
      | None \<Rightarrow> loads_each matches)"

definition extract_errors_from_broken_json :: "string \<Rightarrow> json list" where
  "extract_errors_from_broken_json json_str = loads_each (find_all error_object_pattern json_str)"

text \<open>
  The structured-text fallback: \<^verbatim>\<open>re.finditer\<close>, ignoring case and with the dot matching
  newlines, of
  \<^verbatim>\<open>question[:\s]+(\d+).*?yourAnswer[:\s]+(.*?)correctAnswer[:\s]+(.*?)topic[:\s]+(.*?)feedback[:\s]+(.*?)(?=question|$)\<close>.
  Each lazy group ends at the first place where the next keyword stands with a separator
  after it; a later place cannot match where the first one fails. \<open>split_at_keyword\<close>
  gives the text before the keyword and the text after its separators.
\<close>

fun split_at_keyword :: "string \<Rightarrow> string \<Rightarrow> (string \<times> string) option" where
  "split_at_keyword kw [] = None"
| "split_at_keyword kw (c # cs) =
     (if ci_prefix kw (c # cs) \<and> takeWhile is_sep (drop (length kw) (c # cs)) \<noteq> []
      then Some ([], dropWhile is_sep (drop (length kw) (c # cs)))
      else (case split_at_keyword kw cs of None \<Rightarrow> None | Some (b, a) \<Rightarrow> Some (c # b, a)))"

definition match_error :: "string \<Rightarrow> (json \<times> string) option" where
  "match_error s =
     (if ci_prefix ''question'' s \<and> takeWhile is_sep (drop 8 s) \<noteq> [] then
        (let r = dropWhile is_sep (drop 8 s);
             g1 = takeWhile is_digit r
         in if g1 = [] then None
            else
              (case split_at_keyword ''youranswer'' (dropWhile is_digit r) of
                 None \<Rightarrow> None
               | Some (skipped, r2) \<Rightarrow>
                   (case split_at_keyword ''correctanswer'' r2 of
                      None \<Rightarrow> None
                    | Some (g2, r3) \<Rightarrow>
                        (case split_at_keyword ''topic'' r3 of
                           None \<Rightarrow> None
                         | Some (g3, r4) \<Rightarrow>
                             (case split_at_keyword ''feedback'' r4 of
                                None \<Rightarrow> None
                              | Some (g4, r5) \<Rightarrow>
                                  (let (g5, rest) =
                                         lazy_until (\<lambda>t. ci_prefix ''question'' t \<or> at_end t) [] r5
                                   in Some
                                        (JObj
                                           [(''question'', JInt (int (nat_of_digits g1))),
                                            (''yourAnswer'', JStr (py_strip g2)),
                                            (''correctAnswer'', JStr (py_strip g3)),
                                            (''topic'', JStr (py_strip g4)),
                                            (''feedback'', JStr (py_strip g5)),
                                            (''marksReceived'', JNull),
                                            (''totalMarks'', JNull),
                                            (''correctness'', JStr ''incorrect'')],
                                         rest)))))))
      else None)"

function errors_from_text :: "string \<Rightarrow> json list" where
  "errors_from_text [] = []"
| "errors_from_text (c # cs) =
     (case match_error (c # cs) of
        None \<Rightarrow> errors_from_text cs
      | Some (error, rest) \<Rightarrow>
          if length rest < length (c # cs) then error # errors_from_text rest
          else errors_from_text cs)"
  by pat_completeness auto
termination
  by (relation "measure length") auto

text \<open>The value of \<^verbatim>\<open>errors\<close> for the parsed \<^verbatim>\<open>data\<close>, and the \<^verbatim>\<open>try\<close> around
  \<^verbatim>\<open>json.loads\<close>: \<open>Inr None\<close> means that the code goes on to the structured text.\<close>

definition errors_of :: "json \<Rightarrow> json" where
  "errors_of data =
     (case data of
        JObj d \<Rightarrow> if has_key d ''errors'' then dget d ''errors'' else JArr [data]
      | JArr xs \<Rightarrow> data
      | _ \<Rightarrow> JArr [])"

definition errors_from_json :: "string \<Rightarrow> exn + json option" where
  "errors_from_json json_str =
     (case json_loads json_str of
        Some data \<Rightarrow>
          (case py_iter (errors_of data) of
             Inl x \<Rightarrow> Inl x
           | Inr errors \<Rightarrow>
               (case normalize_errors errors of
                  Inl x \<Rightarrow> Inl x
                | Inr normalized_errors \<Rightarrow>
                    if normalized_errors \<noteq> [] then Inr (Some (JArr normalized_errors))
                    else Inr None))
      | None \<Rightarrow>
          (let errors = extract_errors_from_broken_json json_str
           in if errors \<noteq> [] then Inr (Some (JArr errors)) else Inr None))"

definition find_json_str :: "string \<Rightarrow> string option" where
  \<open>find_json_str ai_response =
     (case first_span (CHR ''['') (CHR '']'') ai_response of
        Some m \<Rightarrow> Some m
      | None \<Rightarrow>
          (case find_keyed_object ''"errors"'' ai_response of
             Some m \<Rightarrow> Some m
           | None \<Rightarrow> find_any_json ai_response))\<close>

text \<open>The body of the outer \<^verbatim>\<open>try\<close>, and the function with its handler, which
  returns the empty list for any exception.\<close>

definition parse_midterm_body :: "string \<Rightarrow> exn + json" where
  "parse_midterm_body ai_response =
     (case (case find_json_str ai_response of
              None \<Rightarrow> Inr None
            | Some json_str \<Rightarrow> errors_from_json (fix_json json_str)) of
        Inl x \<Rightarrow> Inl x
      | Inr (Some errors) \<Rightarrow> Inr errors
      | Inr None \<Rightarrow>
          (let errors = errors_from_text ai_response
           in if errors \<noteq> [] then Inr (JArr errors) else Inr (JArr [])))"

definition parse_midterm_analysis :: "string \<Rightarrow> json" where
  "parse_midterm_analysis ai_response =
     (case parse_midterm_body ai_response of Inl x \<Rightarrow> JArr [] | Inr errors \<Rightarrow> errors)"


section \<open>Notions for the claims about salvage\<close>












section \<open>Notions for the claim about the largest array\<close>






section \<open>Notions for the claim about order\<close>







section \<open>Properties of the error-record normaliser\<close>







section \<open>Properties of the randomiser\<close>


lemma map_of_dset: "map_of (dset d k v) = (map_of d)(k \<mapsto> v)"
  by (induction d k v rule: dset.induct) auto

lemma dget_dset_same: "dget (dset d k v) k = v"
  by (simp add: dget_def map_of_dset)

lemma dget_dset_other: "k' \<noteq> k \<Longrightarrow> dget (dset d k v) k' = dget d k'"
  by (simp add: dget_def map_of_dset)

lemma dget_or_dset_same: "dget_or (dset d k v) k dflt = v"
  by (simp add: dget_or_def map_of_dset)

lemma first_index_Some:
  "first_index P xs = Some i \<Longrightarrow> i < length xs \<and> P (xs ! i) \<and> find P xs = Some (xs ! i)"
proof (induction xs arbitrary: i)
  case Nil
  then show ?case by simp
next
  case (Cons x xs)
  then show ?case
    by (cases "P x") (auto split: option.splits)
qed

lemma first_index_None: "first_index P xs = None \<Longrightarrow> find P xs = None"
  by (induction xs) (auto split: option.splits if_splits)

lemma find_as_filter: "find P xs = (case filter P xs of [] \<Rightarrow> None | x # _ \<Rightarrow> Some x)"
  by (induction xs) auto

lemma short_list_by_mset:
  assumes "mset ys = mset xs" "length xs \<le> 1"
  shows "ys = xs"
proof (cases xs)
  case Nil
  with assms show ?thesis by simp
next
  case (Cons x xs')
  with assms have xs: "xs = [x]" by simp
  with assms have "mset ys = {#x#}" by simp
  then have "ys = [x]" by (simp add: mset_single_iff_right)
  with xs show ?thesis by simp
qed

lemma find_unique_perm:
  assumes "mset ys = mset xs" "length (filter P xs) \<le> 1"
  shows "find P ys = find P xs"
proof -
  from assms(1) have "mset (filter P ys) = mset (filter P xs)"
    by (simp add: mset_filter)
  from short_list_by_mset [OF this assms(2)] show ?thesis
    by (simp add: find_as_filter)
qed

lemma reassign_ids_Inr:
  "reassign_ids ids opts = Inr opts' \<Longrightarrow>
     length opts' = length opts \<and> length opts \<le> length ids \<and>
     (\<forall>k < length opts. \<exists>d. opts ! k = JObj d \<and> opts' ! k = JObj (dset d ''id'' (JStr (ids ! k))))"
proof (induction ids opts arbitrary: opts' rule: reassign_ids.induct)
  case (1 ids)
  then show ?case by simp
next
  case (2 opt opts)
  then show ?case by simp
next
  case (3 i ids opt opts)
  from "3.prems" obtain d r where o: "opt = JObj d" and r: "reassign_ids ids opts = Inr r"
    and res: "opts' = JObj (dset d ''id'' (JStr i)) # r"
    by (auto split: json.splits sum.splits)
  from "3.IH" [OF o r] have ih: "length r = length opts" "length opts \<le> length ids"
    "\<forall>k < length opts. \<exists>d. opts ! k = JObj d \<and> r ! k = JObj (dset d ''id'' (JStr (ids ! k)))"
    by auto
  show ?case
  proof (intro conjI allI impI)
    fix k assume "k < length (opt # opts)"
    then show "\<exists>d. (opt # opts) ! k = JObj d \<and> opts' ! k = JObj (dset d ''id'' (JStr ((i # ids) ! k)))"
      using o res ih(3) by (cases k) auto
  qed (use ih res in auto)
qed

lemma reassign_ids_texts:
  assumes "reassign_ids ids opts = Inr opts'"
  shows "map option_text opts' = map option_text opts"
proof (rule nth_equalityI)
  from reassign_ids_Inr [OF assms] show "length (map option_text opts') = length (map option_text opts)"
    by simp
next
  fix k assume "k < length (map option_text opts')"
  with reassign_ids_Inr [OF assms] have k: "k < length opts" "k < length opts'" by auto
  with reassign_ids_Inr [OF assms] obtain d where
    "opts ! k = JObj d" "opts' ! k = JObj (dset d ''id'' (JStr (ids ! k)))" by blast
  with k show "map option_text opts' ! k = map option_text opts ! k"
    by (simp add: dget_dset_other)
qed

lemma reassign_ids_total:
  "length opts \<le> length ids \<Longrightarrow> list_all (\<lambda>opt. \<exists>d. opt = JObj d) opts \<Longrightarrow> \<exists>opts'. reassign_ids ids opts = Inr opts'"
  by (induction ids opts rule: reassign_ids.induct) (auto split: sum.splits)

lemma find_reassigned:
  assumes r: "reassign_ids ids opts = Inr opts'" and d: "distinct ids" and i: "idx < length opts"
  shows "find (is_correct_option (JStr (ids ! idx))) opts' = Some (opts' ! idx)"
proof -
  note R = reassign_ids_Inr [OF r]
  have P: "is_correct_option (JStr (ids ! idx)) (opts' ! k) \<longleftrightarrow> k = idx" if "k < length opts" for k
  proof -
    from R that obtain e where "opts' ! k = JObj (dset e ''id'' (JStr (ids ! k)))" by blast
    moreover from R that i d have "ids ! k = ids ! idx \<longleftrightarrow> k = idx"
      by (auto simp: nth_eq_iff_index_eq)
    ultimately show ?thesis by (auto simp: dget_dset_same)
  qed
  have "find Q xs = Some (xs ! n)" if "n < length xs" "\<forall>k < length xs. Q (xs ! k) \<longleftrightarrow> k = n" for Q :: "json \<Rightarrow> bool" and xs n
    using that
  proof (induction xs arbitrary: n)
    case Nil
    then show ?case by simp
  next
    case (Cons x xs)
    show ?case
    proof (cases n)
      case 0
      with Cons.prems show ?thesis by auto
    next
      case (Suc m)
      with Cons.prems have "\<not> Q x" by auto
      moreover from Cons.prems Suc have "\<forall>k<length xs. Q (xs ! k) = (k = m)"
        by (metis Suc_less_eq length_Cons nat.inject nth_Cons_Suc)
      with Cons.IH [of m] Cons.prems Suc have "find Q xs = Some (xs ! m)" by simp
      ultimately show ?thesis using Suc by simp
    qed
  qed
  from this [of idx opts' "is_correct_option (JStr (ids ! idx))"] P R i show ?thesis by simp
qed


lemma dget_or_dset_other: "k' \<noteq> k \<Longrightarrow> dget_or (dset d k v) k' dflt = dget_or d k' dflt"
  by (simp add: dget_or_def map_of_dset)

lemma randomize_question_cases:
  assumes "randomize_question shuffle q = Inr q'"
  shows "q' = q \<or>
    (\<exists>d options co idx opts'.
       q = JObj d \<and> dget d ''options'' = JArr options \<and>
       find (is_correct_option (dget_or d ''correctAnswer'' (JStr ''a''))) options = Some co \<and>
       first_index (is_correct_option (dget_or d ''correctAnswer'' (JStr ''a''))) (shuffle options) = Some idx \<and>
       reassign_ids (take (length (shuffle options)) [''a'', ''b'', ''c'', ''d'', ''e'', ''f'']) (shuffle options) = Inr opts' \<and>
       q' = JObj (dset (dset d ''correctAnswer''
              (JStr (take (length (shuffle options)) [''a'', ''b'', ''c'', ''d'', ''e'', ''f''] ! idx)))
            ''options'' (JArr opts')))"
  using assms unfolding randomize_question_def Let_def
  by (auto split: sum.splits bool.splits json.splits if_splits option.splits)

lemma preserved_refl: "preserved q q"
  by (simp add: preserved_def)

lemma randomize_question_preserved:
  assumes perm: "mset (shuffle (options_of q)) = mset (options_of q)"
    and uniq: "unique_correct q"
    and res: "randomize_question shuffle q = Inr q'"
  shows "preserved q q'"
proof -
  from randomize_question_cases [OF res] show ?thesis
  proof (elim disjE exE conjE)
    assume "q' = q"
    then show ?thesis by (simp add: preserved_refl)
  next
    fix d options co idx opts'
    let ?c = "dget_or d ''correctAnswer'' (JStr ''a'')"
    let ?ids = "take (length (shuffle options)) [''a'', ''b'', ''c'', ''d'', ''e'', ''f'']"
    assume q: "q = JObj d" and o: "dget d ''options'' = JArr options"
      and f: "find (is_correct_option ?c) options = Some co"
      and fi: "first_index (is_correct_option ?c) (shuffle options) = Some idx"
      and r: "reassign_ids ?ids (shuffle options) = Inr opts'"
      and q': "q' = JObj (dset (dset d ''correctAnswer'' (JStr (?ids ! idx))) ''options'' (JArr opts'))"
    from q o have oq: "options_of q = options" by (simp add: options_of_def)
    from q have cq: "correct_answer_of q = ?c" by (simp add: correct_answer_of_def)
    from q' have oq': "options_of q' = opts'" by (simp add: options_of_def dget_dset_same)
    from q' have cq': "correct_answer_of q' = JStr (?ids ! idx)"
      by (simp add: correct_answer_of_def dget_or_dset_other dget_or_dset_same)
    from first_index_Some [OF fi] have idx: "idx < length (shuffle options)"
      and fs: "find (is_correct_option ?c) (shuffle options) = Some (shuffle options ! idx)"
      by auto
    have dist: "distinct ?ids" by (rule distinct_take) simp
    from find_reassigned [OF r dist idx] cq' oq'
    have ref': "referenced_option q' = Some (opts' ! idx)"
      by (simp add: referenced_option_def)
    from perm uniq oq cq have "find (is_correct_option ?c) (shuffle options) = find (is_correct_option ?c) options"
      by (intro find_unique_perm) (auto simp: unique_correct_def)
    with fs oq cq have ref: "referenced_option q = Some (shuffle options ! idx)"
      by (simp add: referenced_option_def)
    note T = reassign_ids_texts [OF r]
    from reassign_ids_Inr [OF r] idx have "idx < length opts'" by simp
    with T idx have t: "option_text (opts' ! idx) = option_text (shuffle options ! idx)"
      by (metis nth_map)
    from T have "mset (map option_text opts') = mset (map option_text (shuffle options))" by simp
    with perm oq have m: "image_mset option_text (mset opts') = image_mset option_text (mset options)"
      by simp
    from ref ref' t m oq oq' show ?thesis
      by (simp add: preserved_def)
  qed
qed

lemma randomize_from_preserved:
  assumes "\<forall>n xs. mset (shuffle n xs) = mset xs"
    and "list_all unique_correct qs"
    and "randomize_from shuffle n qs = Inr qs'"
  shows "list_all2 preserved qs qs'"
  using assms(2,3)
proof (induction qs arbitrary: n qs')
  case Nil
  then show ?case by simp
next
  case (Cons q qs)
  from Cons.prems(2) obtain q' r where 1: "randomize_question (shuffle n) q = Inr q'"
    and 2: "randomize_from shuffle (Suc n) qs = Inr r" and 3: "qs' = q' # r"
    by (auto split: sum.splits)
  from assms(1) have "mset (shuffle n (options_of q)) = mset (options_of q)" by simp
  from randomize_question_preserved [OF this _ 1] Cons.prems(1) have "preserved q q'" by simp
  moreover from Cons.IH [OF _ 2] Cons.prems(1) have "list_all2 preserved qs r" by simp
  ultimately show ?case using 3 by simp
qed


lemma reassign_ids_canonical:
  assumes "reassign_ids ids opts = Inr opts'"
  shows "map option_id opts' = map JStr (take (length opts) ids)"
proof (rule nth_equalityI)
  from reassign_ids_Inr [OF assms] show "length (map option_id opts') = length (map JStr (take (length opts) ids))"
    by simp
next
  fix k assume "k < length (map option_id opts')"
  with reassign_ids_Inr [OF assms] have k: "k < length opts" "k < length opts'" "k < length ids" by auto
  with reassign_ids_Inr [OF assms] obtain d where
    "opts' ! k = JObj (dset d ''id'' (JStr (ids ! k)))" by blast
  with k show "map option_id opts' ! k = map JStr (take (length opts) ids) ! k"
    by (simp add: dget_dset_same)
qed

lemma is_dict_iff: "is_dict v \<longleftrightarrow> (\<exists>d. v = JObj d)"
  by (cases v) auto

lemma randomize_question_returns:
  assumes perm: "mset (shuffle (options_of q)) = mset (options_of q)"
    and safe: "shuffle_safe q"
  shows "\<exists>q'. randomize_question shuffle q = Inr q'"
proof -
  from safe obtain d where q: "q = JObj d" 
    by (cases q) (auto simp: shuffle_safe_def)
  show ?thesis
  proof (cases "dget d ''options''")
    case (JArr options)
    with q have oq: "options_of q = options" by (simp add: options_of_def)
    from perm oq have "set (shuffle options) = set options" "length (shuffle options) = length options"
      by (metis mset_eq_setD, metis mset_eq_length)
    with safe oq have "length (shuffle options) \<le> length (take (length (shuffle options)) [''a'', ''b'', ''c'', ''d'', ''e'', ''f''])"
      and "list_all (\<lambda>opt. \<exists>d. opt = JObj d) (shuffle options)"
      by (auto simp: shuffle_safe_def list_all_iff is_dict_iff)
    from reassign_ids_total [OF this] obtain opts' where
      "reassign_ids (take (length (shuffle options)) [''a'', ''b'', ''c'', ''d'', ''e'', ''f'']) (shuffle options) = Inr opts'"
      by blast
    with q JArr show ?thesis
      by (simp add: randomize_question_def Let_def split: option.splits bool.splits)
  qed (use q in \<open>auto simp: randomize_question_def split: bool.splits\<close>)
qed

lemma randomize_from_returns:
  assumes "\<forall>n xs. mset (shuffle n xs) = mset xs"
    and "list_all shuffle_safe qs"
  shows "\<exists>qs'. randomize_from shuffle n qs = Inr qs'"
  using assms(2)
proof (induction qs arbitrary: n)
  case Nil
  then show ?case by simp
next
  case (Cons q qs)
  from assms(1) have "mset (shuffle n (options_of q)) = mset (options_of q)" by simp
  from randomize_question_returns [of "shuffle n" q, OF this] Cons.prems obtain q' where
    "randomize_question (shuffle n) q = Inr q'" by auto
  moreover from Cons.IH [of "Suc n"] Cons.prems obtain r where
    "randomize_from shuffle (Suc n) qs = Inr r" by auto
  ultimately show ?case by simp
qed

lemma mset_rotate1: "mset (rotate1 xs) = mset xs"
  by (cases xs) simp_all

lemma mset_rotate: "mset (rotate n xs) = mset xs"
  by (induction n) (simp_all add: mset_rotate1)

text \<open>
  Claim C7, as amended. Let every record's correct-answer id match at most one of its
  options, and let each shuffle be a permutation. Then whenever the randomiser returns,
  each output record has the same multiset of option texts as its input record, the
  option its correct-answer id refers to has the same text as before, and a record whose
  correct option cannot be located by id is returned as it was. The randomiser does
  return when every record is a dict whose options are at most six dicts.
\<close>

theorem randomizer_preserves:
  assumes "\<forall>n xs. mset (shuffle n xs) = mset xs"
    and "list_all unique_correct questions"
  shows "(\<forall>questions'. randomize_question_options shuffle questions = Inr questions' \<longrightarrow>
            list_all2 preserved questions questions') \<and>
         (list_all shuffle_safe questions \<longrightarrow>
            (\<exists>questions'. randomize_question_options shuffle questions = Inr questions'))"
  using randomize_from_preserved [OF assms] randomize_from_returns [OF assms(1)]
  unfolding randomize_question_options_def by blast

theorem randomizer_preserves_witness:
  "randomize_question_options (\<lambda>n. rotate (Suc n))
     [JObj [(''text'', JStr ''Which data structure does DFS use?''),
            (''options'', JArr [JObj [(''id'', JStr ''a''), (''text'', JStr ''Queue'')],
                                JObj [(''id'', JStr ''b''), (''text'', JStr ''Stack'')],
                                JObj [(''id'', JStr ''c''), (''text'', JStr ''Heap'')]]),
            (''correctAnswer'', JStr ''b'')],
      JObj [(''text'', JStr ''Which algorithm uses divide and conquer?''),
            (''options'', JArr [JObj [(''id'', JStr ''a''), (''text'', JStr ''Merge sort'')],
                                JObj [(''id'', JStr ''b''), (''text'', JStr ''Bubble sort'')]]),
            (''correctAnswer'', JStr ''z'')]]
   = Inr
     [JObj [(''text'', JStr ''Which data structure does DFS use?''),
            (''options'', JArr [JObj [(''id'', JStr ''a''), (''text'', JStr ''Stack'')],
                                JObj [(''id'', JStr ''b''), (''text'', JStr ''Heap'')],
                                JObj [(''id'', JStr ''c''), (''text'', JStr ''Queue'')]]),
            (''correctAnswer'', JStr ''a'')],
      JObj [(''text'', JStr ''Which algorithm uses divide and conquer?''),
            (''options'', JArr [JObj [(''id'', JStr ''a''), (''text'', JStr ''Merge sort'')],
                                JObj [(''id'', JStr ''b''), (''text'', JStr ''Bubble sort'')]]),
            (''correctAnswer'', JStr ''z'')]] \<and>
   list_all2 preserved
     [JObj [(''text'', JStr ''Which data structure does DFS use?''),
            (''options'', JArr [JObj [(''id'', JStr ''a''), (''text'', JStr ''Queue'')],
                                JObj [(''id'', JStr ''b''), (''text'', JStr ''Stack'')],
                                JObj [(''id'', JStr ''c''), (''text'', JStr ''Heap'')]]),
            (''correctAnswer'', JStr ''b'')],
      JObj [(''text'', JStr ''Which algorithm uses divide and conquer?''),
            (''options'', JArr [JObj [(''id'', JStr ''a''), (''text'', JStr ''Merge sort'')],
                                JObj [(''id'', JStr ''b''), (''text'', JStr ''Bubble sort'')]]),
            (''correctAnswer'', JStr ''z'')]]
     [JObj [(''text'', JStr ''Which data structure does DFS use?''),
            (''options'', JArr [JObj [(''id'', JStr ''a''), (''text'', JStr ''Stack'')],
                                JObj [(''id'', JStr ''b''), (''text'', JStr ''Heap'')],
                                JObj [(''id'', JStr ''c''), (''text'', JStr ''Queue'')]]),
            (''correctAnswer'', JStr ''a'')],
      JObj [(''text'', JStr ''Which algorithm uses divide and conquer?''),
            (''options'', JArr [JObj [(''id'', JStr ''a''), (''text'', JStr ''Merge sort'')],
                                JObj [(''id'', JStr ''b''), (''text'', JStr ''Bubble sort'')]]),
            (''correctAnswer'', JStr ''z'')]]"
proof -
  let ?qs = "[JObj [(''text'', JStr ''Which data structure does DFS use?''),
            (''options'', JArr [JObj [(''id'', JStr ''a''), (''text'', JStr ''Queue'')],
                                JObj [(''id'', JStr ''b''), (''text'', JStr ''Stack'')],
                                JObj [(''id'', JStr ''c''), (''text'', JStr ''Heap'')]]),
            (''correctAnswer'', JStr ''b'')],
      JObj [(''text'', JStr ''Which algorithm uses divide and conquer?''),
            (''options'', JArr [JObj [(''id'', JStr ''a''), (''text'', JStr ''Merge sort'')],
                                JObj [(''id'', JStr ''b''), (''text'', JStr ''Bubble sort'')]]),
            (''correctAnswer'', JStr ''z'')]]"
  have p: "\<forall>n xs. mset (rotate (Suc n) xs) = mset (xs :: json list)"
    by (simp only: mset_rotate) simp
  have u: "list_all unique_correct ?qs"
    by (simp add: unique_correct_def correct_answer_of_def options_of_def dget_def dget_or_def)
  have r: "randomize_question_options (\<lambda>n. rotate (Suc n)) ?qs = Inr
     [JObj [(''text'', JStr ''Which data structure does DFS use?''),
            (''options'', JArr [JObj [(''id'', JStr ''a''), (''text'', JStr ''Stack'')],
                                JObj [(''id'', JStr ''b''), (''text'', JStr ''Heap'')],
                                JObj [(''id'', JStr ''c''), (''text'', JStr ''Queue'')]]),
            (''correctAnswer'', JStr ''a'')],
      JObj [(''text'', JStr ''Which algorithm uses divide and conquer?''),
            (''options'', JArr [JObj [(''id'', JStr ''a''), (''text'', JStr ''Merge sort'')],
                                JObj [(''id'', JStr ''b''), (''text'', JStr ''Bubble sort'')]]),
            (''correctAnswer'', JStr ''z'')]]"
    by (simp add: randomize_question_options_def randomize_question_def has_key_def dget_def
        dget_or_def rotate1_def)
  from randomizer_preserves [OF p u] r show ?thesis
    by blast
qed

text \<open>
  The claim as stated fails when two options share the correct-answer id: the record
  below is what the validator returns for itself, and after the options are reversed the
  correct-answer id refers to the option with text \<^verbatim>\<open>two\<close> instead of \<^verbatim>\<open>one\<close>.
\<close>

theorem randomizer_duplicate_id_counterexample:
  "randomize_question_options (\<lambda>n. rev)
     [JObj [(''id'', JStr ''1''), (''text'', JStr ''Which one is right?''),
            (''options'', JArr [JObj [(''id'', JStr ''a''), (''text'', JStr ''one'')],
                                JObj [(''id'', JStr ''a''), (''text'', JStr ''two'')],
                                JObj [(''id'', JStr ''c''), (''text'', JStr ''three'')]]),
            (''correctAnswer'', JStr ''a''), (''explanation'', JStr []), (''topic'', JStr ''T'')]]
   = Inr
     [JObj [(''id'', JStr ''1''), (''text'', JStr ''Which one is right?''),
            (''options'', JArr [JObj [(''id'', JStr ''a''), (''text'', JStr ''three'')],
                                JObj [(''id'', JStr ''b''), (''text'', JStr ''two'')],
                                JObj [(''id'', JStr ''c''), (''text'', JStr ''one'')]]),
            (''correctAnswer'', JStr ''b''), (''explanation'', JStr []), (''topic'', JStr ''T'')]] \<and>
   map_option option_text (referenced_option
     (JObj [(''id'', JStr ''1''), (''text'', JStr ''Which one is right?''),
            (''options'', JArr [JObj [(''id'', JStr ''a''), (''text'', JStr ''one'')],
                                JObj [(''id'', JStr ''a''), (''text'', JStr ''two'')],
                                JObj [(''id'', JStr ''c''), (''text'', JStr ''three'')]]),
            (''correctAnswer'', JStr ''a''), (''explanation'', JStr []), (''topic'', JStr ''T'')]))
     = Some (JStr ''one'') \<and>
   map_option option_text (referenced_option
     (JObj [(''id'', JStr ''1''), (''text'', JStr ''Which one is right?''),
            (''options'', JArr [JObj [(''id'', JStr ''a''), (''text'', JStr ''three'')],
                                JObj [(''id'', JStr ''b''), (''text'', JStr ''two'')],
                                JObj [(''id'', JStr ''c''), (''text'', JStr ''one'')]]),
            (''correctAnswer'', JStr ''b''), (''explanation'', JStr []), (''topic'', JStr ''T'')]))
     = Some (JStr ''two'') \<and>
   validate_questions [''T'']
     [JObj [(''id'', JStr ''1''), (''text'', JStr ''Which one is right?''),
            (''options'', JArr [JObj [(''id'', JStr ''a''), (''text'', JStr ''one'')],
                                JObj [(''id'', JStr ''a''), (''text'', JStr ''two'')],
                                JObj [(''id'', JStr ''c''), (''text'', JStr ''three'')]]),
            (''correctAnswer'', JStr ''a''), (''explanation'', JStr []), (''topic'', JStr ''T'')]]
   = Inr
     [JObj [(''id'', JStr ''1''), (''text'', JStr ''Which one is right?''),
            (''options'', JArr [JObj [(''id'', JStr ''a''), (''text'', JStr ''one'')],
                                JObj [(''id'', JStr ''a''), (''text'', JStr ''two'')],
                                JObj [(''id'', JStr ''c''), (''text'', JStr ''three'')]]),
            (''correctAnswer'', JStr ''a''), (''explanation'', JStr []), (''topic'', JStr ''T'')]]"
  by code_simp

text \<open>
  Claim C8. The ids are taken from a list of six letters: with seven options, all
  dicts and the correct one located, \<^verbatim>\<open>option_ids[6]\<close> raises \<^verbatim>\<open>IndexError\<close>, whatever the
  permutation, while the validator's \<^verbatim>\<open>chr(97 + n)\<close> has a seventh id.
\<close>

theorem randomizer_seven_options_raises:
  "randomize_question_options (\<lambda>n xs. xs)
     [JObj [(''id'', JStr ''1''), (''text'', JStr ''Which of the seven is right?''),
            (''options'', JArr [JObj [(''id'', JStr ''a''), (''text'', JStr ''one'')],
                                JObj [(''id'', JStr ''b''), (''text'', JStr ''two'')],
                                JObj [(''id'', JStr ''c''), (''text'', JStr ''three'')],
                                JObj [(''id'', JStr ''d''), (''text'', JStr ''four'')],
                                JObj [(''id'', JStr ''e''), (''text'', JStr ''five'')],
                                JObj [(''id'', JStr ''f''), (''text'', JStr ''six'')],
                                JObj [(''id'', JStr ''g''), (''text'', JStr ''seven'')]]),
            (''correctAnswer'', JStr ''b'')]]
   = Inl IndexError \<and>
   randomize_question_options (\<lambda>n. rev)
     [JObj [(''id'', JStr ''1''), (''text'', JStr ''Which of the seven is right?''),
            (''options'', JArr [JObj [(''id'', JStr ''a''), (''text'', JStr ''one'')],
                                JObj [(''id'', JStr ''b''), (''text'', JStr ''two'')],
                                JObj [(''id'', JStr ''c''), (''text'', JStr ''three'')],
                                JObj [(''id'', JStr ''d''), (''text'', JStr ''four'')],
                                JObj [(''id'', JStr ''e''), (''text'', JStr ''five'')],
                                JObj [(''id'', JStr ''f''), (''text'', JStr ''six'')],
                                JObj [(''id'', JStr ''g''), (''text'', JStr ''seven'')]]),
            (''correctAnswer'', JStr ''b'')]]
   = Inl IndexError \<and>
   map canonical_id [0, 1, 2, 3, 4, 5, 6] = [''a'', ''b'', ''c'', ''d'', ''e'', ''f'', ''g'']"
  by code_simp

section \<open>Properties of the validator\<close>


lemma validate_question_Some:
  assumes "validate_question topics_list n (JObj q) = Inr (Some v)"
  shows "\<exists>t opts fields.
           py_iter (dget_or q ''options'' (JArr [])) = Inr opts \<and>
           2 \<le> length (normalize_options opts []) \<and>
           v = JObj ([(''id'', py_or (dget q ''id'') (JStr (str_int (int n + 1)))),
                      (''text'', JStr (py_strip t)),
                      (''options'', JArr (normalize_options opts [])),
                      (''correctAnswer'',
                         py_or (py_or (dget q ''correctAnswer'') (dget q ''correct_answer''))
                           (option_id (hd (normalize_options opts []))))] @ fields) \<and>
           py_or (py_or (dget q ''text'') (dget q ''question'')) (JStr []) = JStr t"
  using assms unfolding validate_question_def Let_def
  by (auto split: json.splits sum.splits if_splits)

text \<open>
  Claim C1, as amended. For a record that survives validation, the resulting
  \<^verbatim>\<open>correctAnswer\<close> is the raw record's \<^verbatim>\<open>correctAnswer\<close> value when that is present and
  non-empty, else its \<^verbatim>\<open>correct_answer\<close> value when that is, kept as it is whether or not
  it is the id of a surviving option. Only when both are absent or empty is it set to the
  id of the first surviving option, and then it is the id of a surviving option.
\<close>

theorem validated_correct_answer:
  assumes "validate_question topics_list n (JObj q) = Inr (Some v)"
  shows "(truthy (dget q ''correctAnswer'') \<longrightarrow>
            correct_answer_of v = dget q ''correctAnswer'') \<and>
         (\<not> truthy (dget q ''correctAnswer'') \<and> truthy (dget q ''correct_answer'') \<longrightarrow>
            correct_answer_of v = dget q ''correct_answer'') \<and>
         (\<not> truthy (dget q ''correctAnswer'') \<and> \<not> truthy (dget q ''correct_answer'') \<longrightarrow>
            options_of v \<noteq> [] \<and> correct_answer_of v = option_id (hd (options_of v)) \<and>
            correct_answer_of v \<in> set (map option_id (options_of v)))"
proof -
  from validate_question_Some [OF assms] obtain t opts fields where
    len: "2 \<le> length (normalize_options opts [])"
    and v: "v = JObj ([(''id'', py_or (dget q ''id'') (JStr (str_int (int n + 1)))),
                      (''text'', JStr (py_strip t)),
                      (''options'', JArr (normalize_options opts [])),
                      (''correctAnswer'',
                         py_or (py_or (dget q ''correctAnswer'') (dget q ''correct_answer''))
                           (option_id (hd (normalize_options opts []))))] @ fields)"
    by blast
  from v have o: "options_of v = normalize_options opts []"
    by (simp add: options_of_def dget_def)
  from v have c: "correct_answer_of v =
      py_or (py_or (dget q ''correctAnswer'') (dget q ''correct_answer''))
        (option_id (hd (normalize_options opts [])))"
    by (simp add: correct_answer_of_def dget_or_def)
  from len have ne: "normalize_options opts [] \<noteq> []" by auto
  then have "hd (normalize_options opts []) \<in> set (normalize_options opts [])" by simp
  with o c ne show ?thesis
    by (auto simp: py_or_def)
qed

theorem validated_correct_answer_witness:
  "validate_question [''Graphs''] 0
     (JObj [(''text'', JStr ''Which data structure does DFS use?''),
            (''options'', JArr [JStr ''Queue'', JStr ''Stack''])])
   = Inr (Some (JObj
       [(''id'', JStr ''1''), (''text'', JStr ''Which data structure does DFS use?''),
        (''options'', JArr [JObj [(''id'', JStr ''a''), (''text'', JStr ''Queue'')],
                            JObj [(''id'', JStr ''b''), (''text'', JStr ''Stack'')]]),
        (''correctAnswer'', JStr ''a''), (''explanation'', JStr []),
        (''topic'', JStr ''Graphs'')])) \<and>
   correct_answer_of (JObj
       [(''id'', JStr ''1''), (''text'', JStr ''Which data structure does DFS use?''),
        (''options'', JArr [JObj [(''id'', JStr ''a''), (''text'', JStr ''Queue'')],
                            JObj [(''id'', JStr ''b''), (''text'', JStr ''Stack'')]]),
        (''correctAnswer'', JStr ''a''), (''explanation'', JStr []),
        (''topic'', JStr ''Graphs'')])
     \<in> set (map option_id (options_of (JObj
       [(''id'', JStr ''1''), (''text'', JStr ''Which data structure does DFS use?''),
        (''options'', JArr [JObj [(''id'', JStr ''a''), (''text'', JStr ''Queue'')],
                            JObj [(''id'', JStr ''b''), (''text'', JStr ''Stack'')]]),
        (''correctAnswer'', JStr ''a''), (''explanation'', JStr []),
        (''topic'', JStr ''Graphs'')])))"
proof -
  let ?q = "[(''text'', JStr ''Which data structure does DFS use?''),
            (''options'', JArr [JStr ''Queue'', JStr ''Stack''])]"
  have r: "validate_question [''Graphs''] 0 (JObj ?q)
   = Inr (Some (JObj
       [(''id'', JStr ''1''), (''text'', JStr ''Which data structure does DFS use?''),
        (''options'', JArr [JObj [(''id'', JStr ''a''), (''text'', JStr ''Queue'')],
                            JObj [(''id'', JStr ''b''), (''text'', JStr ''Stack'')]]),
        (''correctAnswer'', JStr ''a''), (''explanation'', JStr []),
        (''topic'', JStr ''Graphs'')]))"
    by code_simp
  have f: "\<not> truthy (dget ?q ''correctAnswer'') \<and> \<not> truthy (dget ?q ''correct_answer'')"
    by (simp add: dget_def)
  from validated_correct_answer [OF r] f r show ?thesis
    by blast
qed

text \<open>
  The claim as stated fails: a record whose \<^verbatim>\<open>correctAnswer\<close> is \<^verbatim>\<open>z\<close> and whose options
  have the ids \<^verbatim>\<open>a\<close> and \<^verbatim>\<open>b\<close> survives with \<^verbatim>\<open>correctAnswer\<close> still \<^verbatim>\<open>z\<close>.
\<close>

theorem unmatched_correct_answer_counterexample:
  "validate_question [''Graphs''] 0
     (JObj [(''text'', JStr ''Which data structure does DFS use?''),
            (''options'', JArr [JObj [(''id'', JStr ''a''), (''text'', JStr ''Queue'')],
                                JObj [(''id'', JStr ''b''), (''text'', JStr ''Stack'')]]),
            (''correctAnswer'', JStr ''z'')])
   = Inr (Some (JObj
       [(''id'', JStr ''1''), (''text'', JStr ''Which data structure does DFS use?''),
        (''options'', JArr [JObj [(''id'', JStr ''a''), (''text'', JStr ''Queue'')],
                            JObj [(''id'', JStr ''b''), (''text'', JStr ''Stack'')]]),
        (''correctAnswer'', JStr ''z''), (''explanation'', JStr []),
        (''topic'', JStr ''Graphs'')])) \<and>
   correct_answer_of (JObj
       [(''id'', JStr ''1''), (''text'', JStr ''Which data structure does DFS use?''),
        (''options'', JArr [JObj [(''id'', JStr ''a''), (''text'', JStr ''Queue'')],
                            JObj [(''id'', JStr ''b''), (''text'', JStr ''Stack'')]]),
        (''correctAnswer'', JStr ''z''), (''explanation'', JStr []),
        (''topic'', JStr ''Graphs'')]) = JStr ''z'' \<and>
   map option_id (options_of (JObj
       [(''id'', JStr ''1''), (''text'', JStr ''Which data structure does DFS use?''),
        (''options'', JArr [JObj [(''id'', JStr ''a''), (''text'', JStr ''Queue'')],
                            JObj [(''id'', JStr ''b''), (''text'', JStr ''Stack'')]]),
        (''correctAnswer'', JStr ''z''), (''explanation'', JStr []),
        (''topic'', JStr ''Graphs'')])) = [JStr ''a'', JStr ''b''] \<and>
   referenced_option (JObj
       [(''id'', JStr ''1''), (''text'', JStr ''Which data structure does DFS use?''),
        (''options'', JArr [JObj [(''id'', JStr ''a''), (''text'', JStr ''Queue'')],
                            JObj [(''id'', JStr ''b''), (''text'', JStr ''Stack'')]]),
        (''correctAnswer'', JStr ''z''), (''explanation'', JStr []),
        (''topic'', JStr ''Graphs'')]) = None"
  by code_simp

section \<open>Properties of the scanners\<close>

lemma inside_string:
  "string_body lit \<Longrightarrow>
     scan_braces n True False j (lit @ CHR 0x22 # rest) =
     scan_braces n False False (j + length lit + 1) rest"
proof (induction lit arbitrary: j rule: string_body.induct)
  case 1
  then show ?case by simp
next
  case (2 c cs)
  show ?case
  proof (cases "c = CHR 0x5C")
    case True
    with "2.prems" obtain e cs' where cs: "cs = e # cs'" and b: "string_body cs'"
      by (auto split: list.splits)
    from "2.IH"(1) [OF True cs b, of "Suc (Suc j)"] True cs show ?thesis
      by simp
  next
    case False
    with "2.prems" have q: "c \<noteq> CHR 0x22" and b: "string_body cs" by auto
    from "2.IH"(2) [OF False b, of "Suc j"] False q show ?thesis
      by simp
  qed
qed

text \<open>
  Claim C2, as amended. The brace scanner of the salvage pass never counts a brace inside
  a quoted string, escapes included: from outside a string, a whole string literal
  leaves the depth as it was, whatever braces it holds. Scanning \<^verbatim>\<open>{"a": "}"}\<close> from its
  opening brace yields the full span of 10 characters.
\<close>

theorem brace_scanner_skips_strings:
  \<open>(string_body lit \<longrightarrow>
      scan_braces n False False j (CHR 0x22 # lit @ CHR 0x22 # rest) =
      scan_braces n False False (j + length lit + 2) rest) \<and>
   scan_braces 0 False False 0 ''{"a": "}"}'' = Some 9 \<and>
   object_span ''{"a": "}"}'' = Some ''{"a": "}"}'' \<and>
   length ''{"a": "}"}'' = 10\<close>
proof (intro conjI impI)
  assume "string_body lit"
  from inside_string [OF this, of n "Suc j" rest]
  show "scan_braces n False False j (CHR 0x22 # lit @ CHR 0x22 # rest) =
      scan_braces n False False (j + length lit + 2) rest"
    by simp
qed (simp_all add: object_span_def)

theorem brace_scanner_skips_strings_witness:
  \<open>string_body (''}{'' @ [CHR 0x5C, CHR 0x22] @ ''}'') \<and>
   scan_braces 1 False False 6
     (CHR 0x22 # (''}{'' @ [CHR 0x5C, CHR 0x22] @ ''}'') @ CHR 0x22 # ''}'') = Some 13\<close>
proof -
  have b: "string_body (''}{'' @ [CHR 0x5C, CHR 0x22] @ ''}'')"
    by simp
  from brace_scanner_skips_strings [of "''}{'' @ [CHR 0x5C, CHR 0x22] @ ''}''" 1 6 "''}''"] b
  have "scan_braces 1 False False 6
     (CHR 0x22 # (''}{'' @ [CHR 0x5C, CHR 0x22] @ ''}'') @ CHR 0x22 # ''}'') =
     scan_braces 1 False False (6 + length (''}{'' @ [CHR 0x5C, CHR 0x22] @ ''}'') + 2) ''}''"
    by blast
  with b show ?thesis by simp
qed

text \<open>
  The claim as stated fails twice. The text \<^verbatim>\<open>{"a": "}"}\<close> has 10 characters, so its full
  span is not one of 11. And the bracket scanner of strategy 2 keeps no string state: on
  \<^verbatim>\<open>["]", "x"]\<close> it stops at the bracket inside the first string, after 3 characters.
\<close>

theorem scanner_counterexample:
  \<open>object_span ''{"a": "}"}'' = Some ''{"a": "}"}'' \<and>
   length ''{"a": "}"}'' = 10 \<and>
   scan_brackets 0 0 ''["]", "x"]'' = Some 3 \<and>
   length ''["]", "x"]'' = 10\<close>
  by (simp add: object_span_def)

section \<open>Properties of the syntax repair pass\<close>

lemma space_not_comma: "is_space c \<Longrightarrow> c \<noteq> CHR '',''"
  by (auto simp: is_space_def)

lemma space_not_slash: "is_space c \<Longrightarrow> c \<noteq> CHR ''/''"
  by (auto simp: is_space_def)

lemma commas_copy:
  "\<forall>x \<in> set xs. x \<noteq> CHR '','' \<Longrightarrow>
     remove_trailing_commas (xs @ ys) = xs @ remove_trailing_commas ys"
  by (induction xs) auto

lemma commas_step:
  "remove_trailing_commas (c # cs) =
     (if c = CHR '','' \<and> closes (dropWhile is_space cs) then remove_trailing_commas cs
      else c # remove_trailing_commas cs)"
proof (cases "c = CHR '','' \<and> closes (dropWhile is_space cs)")
  case True
  then obtain d ds where d: "dropWhile is_space cs = d # ds" "d = CHR ''}'' \<or> d = CHR '']''"
    by (auto simp: closes_def split: list.splits)
  have "\<forall>x \<in> set (takeWhile is_space cs). x \<noteq> CHR '',''"
    by (auto dest: set_takeWhileD space_not_comma)
  then have "remove_trailing_commas (takeWhile is_space cs @ d # ds) =
      takeWhile is_space cs @ remove_trailing_commas (d # ds)"
    by (rule commas_copy)
  moreover have "takeWhile is_space cs @ d # ds = cs"
    using d(1) takeWhile_dropWhile_id [of is_space cs] by simp
  moreover from d(2) have "remove_trailing_commas (d # ds) = d # remove_trailing_commas ds"
    by auto
  ultimately have "remove_trailing_commas cs = takeWhile is_space cs @ d # remove_trailing_commas ds"
    by simp
  with True d show ?thesis by simp
next
  case False
  then show ?thesis by auto
qed

declare remove_trailing_commas.simps(2) [simp del]

lemma escape_newlines_id: "escape_newlines b s = s"
  by (induction s arbitrary: b) auto

lemma fix_json_eq: "fix_json s = remove_comments (remove_trailing_commas s)"
  by (simp add: fix_json_def escape_newlines_id)

lemma comments_id: "no_comment t \<Longrightarrow> remove_comments t = t"
  by (induction t) auto

lemma comment_start_after:
  "\<not> comment_start (c # cs) \<Longrightarrow> \<not> comment_start (c # remove_comments cs)"
  by (cases cs) (auto simp: comment_start_def split: list.splits)

lemma no_comment_comments: "no_comment (remove_comments t)"
  by (induction t rule: remove_comments.induct) (auto simp: comment_start_after)

lemma commas_id: "no_trailing_comma t \<Longrightarrow> remove_trailing_commas t = t"
  by (induction t) (auto simp: commas_step)

lemma comma_guarded_dropWhile: "comma_guarded t \<Longrightarrow> comma_guarded (dropWhile p t)"
  by (induction t) auto

lemma comma_guarded_tl: "comma_guarded t \<Longrightarrow> comma_guarded (tl t)"
  by (cases t) auto

lemma closes_after_comments:
  "\<not> comment_start (dropWhile is_space cs) \<Longrightarrow>
     closes (dropWhile is_space (remove_comments cs)) = closes (dropWhile is_space cs)"
proof (induction cs)
  case Nil
  then show ?case by simp
next
  case (Cons c cs)
  show ?case
  proof (cases "is_space c")
    case True
    then have "\<not> comment_start (c # cs)"
      by (auto simp: comment_start_def dest: space_not_slash split: list.splits)
    with True Cons show ?thesis by simp
  next
    case False
    with Cons.prems have "\<not> comment_start (c # cs)" by simp
    with False show ?thesis by (simp add: closes_def)
  qed
qed

lemma guarded_no_trailing_comma:
  "comma_guarded u \<Longrightarrow> no_trailing_comma (remove_comments u)"
proof (induction u rule: remove_comments.induct)
  case 1
  then show ?case by simp
next
  case (2 c cs)
  show ?case
  proof (cases "comment_start (c # cs)")
    case True
    from "2.prems" have "comma_guarded (dropWhile (\<lambda>x. x \<noteq> CHR 0x0A) (tl cs))"
      by (simp add: comma_guarded_dropWhile comma_guarded_tl)
    with "2.IH"(1) [OF True] True show ?thesis by simp
  next
    case False
    from "2.prems" have g: "comma_guarded cs" by simp
    have "\<not> closes (dropWhile is_space (remove_comments cs))" if "c = CHR '',''"
      using that "2.prems" by (simp add: closes_after_comments)
    with "2.IH"(2) [OF False g] False show ?thesis by auto
  qed
qed

lemma commas_head_slash:
  "remove_trailing_commas ds = CHR ''/'' # r \<Longrightarrow> \<exists>r'. ds = CHR ''/'' # r'"
proof (cases ds)
  case Nil
  assume "remove_trailing_commas ds = CHR ''/'' # r"
  with Nil show ?thesis by simp
next
  case (Cons e es)
  assume a: "remove_trailing_commas ds = CHR ''/'' # r"
  show ?thesis
  proof (cases "e = CHR '','' \<and> closes (dropWhile is_space es)")
    case True
    then obtain f fs where es: "es = f # fs" and f: "is_space f \<or> f = CHR ''}'' \<or> f = CHR '']''"
      by (cases es) (auto simp: closes_def split: if_splits)
    from f have "f \<noteq> CHR '',''" "f \<noteq> CHR ''/''"
      by (auto dest: space_not_comma space_not_slash)
    with a Cons True es show ?thesis
      by (simp add: commas_step)
  next
    case False
    with a Cons show ?thesis by (auto simp: commas_step)
  qed
qed

lemma dropWhile_after_commas:
  "\<not> starts_comma (dropWhile is_space cs) \<Longrightarrow>
     dropWhile is_space (remove_trailing_commas cs) =
       (case dropWhile is_space cs of [] \<Rightarrow> [] | d # ds \<Rightarrow> d # remove_trailing_commas ds)"
proof (induction cs)
  case Nil
  then show ?case by simp
next
  case (Cons c cs)
  show ?case
  proof (cases "is_space c")
    case True
    with Cons space_not_comma [OF True] show ?thesis by (simp add: commas_step)
  next
    case False
    with Cons.prems have "c \<noteq> CHR '',''" by (simp add: starts_comma_def)
    with False show ?thesis by (simp add: commas_step)
  qed
qed

lemma stable_guarded: "repair_stable s \<Longrightarrow> comma_guarded (remove_trailing_commas s)"
proof (induction s)
  case Nil
  then show ?case by simp
next
  case (Cons c cs)
  from Cons have g: "comma_guarded (remove_trailing_commas cs)" by simp
  show ?case
  proof (cases "c = CHR '','' \<and> closes (dropWhile is_space cs)")
    case True
    with g show ?thesis by (simp add: commas_step)
  next
    case False
    have "\<not> closes (dropWhile is_space (remove_trailing_commas cs)) \<and>
          \<not> comment_start (dropWhile is_space (remove_trailing_commas cs))" if c: "c = CHR '',''"
    proof -
      from c False have nc: "\<not> closes (dropWhile is_space cs)" by simp
      from c Cons.prems have ns: "\<not> starts_comma (dropWhile is_space cs)"
        and nm: "\<not> comment_start (dropWhile is_space cs)" by simp_all
      note D = dropWhile_after_commas [OF ns]
      show ?thesis
      proof (cases "dropWhile is_space cs")
        case Nil
        with D have e: "dropWhile is_space (remove_trailing_commas cs) = []"
          by (simp del: dropWhile_eq_Nil_conv)
        show ?thesis unfolding e by (simp add: closes_def comment_start_def)
      next
        case (Cons d ds)
        with D have eq: "dropWhile is_space (remove_trailing_commas cs) = d # remove_trailing_commas ds"
          by simp
        from nc Cons have 1: "\<not> closes (d # remove_trailing_commas ds)"
          by (simp add: closes_def)
        have 2: "\<not> comment_start (d # remove_trailing_commas ds)"
        proof
          assume "comment_start (d # remove_trailing_commas ds)"
          then obtain r where "d = CHR ''/''" "remove_trailing_commas ds = CHR ''/'' # r"
            by (auto simp: comment_start_def split: list.splits)
          with commas_head_slash [of ds r] obtain r' where "d = CHR ''/''" "ds = CHR ''/'' # r'"
            by blast
          with nm Cons show False by (simp add: comment_start_def)
        qed
        from 1 2 eq show ?thesis by simp
      qed
    qed
    with False g show ?thesis by (auto simp: commas_step)
  qed
qed

lemma fix_json_idem: "repair_stable s \<Longrightarrow> fix_json (fix_json s) = fix_json s"
proof -
  assume "repair_stable s"
  then have "no_trailing_comma (remove_comments (remove_trailing_commas s))"
    by (intro guarded_no_trailing_comma stable_guarded)
  then have "remove_trailing_commas (remove_comments (remove_trailing_commas s)) =
      remove_comments (remove_trailing_commas s)"
    by (rule commas_id)
  moreover have "remove_comments (remove_comments (remove_trailing_commas s)) =
      remove_comments (remove_trailing_commas s)"
    by (intro comments_id no_comment_comments)
  ultimately show ?thesis by (simp add: fix_json_eq)
qed

lemma fix_json_unchanged: "no_trailing_comma s \<Longrightarrow> no_comment s \<Longrightarrow> fix_json s = s"
  by (simp add: fix_json_eq commas_id comments_id)

text \<open>
  Claim C3, as amended. The repair pass is idempotent on every text in which no comma
  is followed, after optional whitespace, by another comma or by a \<^verbatim>\<open>//\<close> comment. It
  leaves a text unchanged, and so its parsed meaning, when the text has no comma before a
  closing brace or bracket and no \<^verbatim>\<open>//\<close>.
\<close>

theorem repair_pass_idempotent:
  "(repair_stable s \<longrightarrow> fix_json (fix_json s) = fix_json s) \<and>
   (no_trailing_comma s \<and> no_comment s \<longrightarrow> fix_json s = s)"
  using fix_json_idem [of s] fix_json_unchanged [of s] by blast

theorem repair_pass_idempotent_witness:
  "repair_stable (''[1, 2, ] // c'' @ [CHR 0x0A] @ ''{}'') \<and>
   fix_json (''[1, 2, ] // c'' @ [CHR 0x0A] @ ''{}'') = ''[1, 2 ] '' @ [CHR 0x0A] @ ''{}'' \<and>
   fix_json (fix_json (''[1, 2, ] // c'' @ [CHR 0x0A] @ ''{}'')) =
     fix_json (''[1, 2, ] // c'' @ [CHR 0x0A] @ ''{}'') \<and>
   no_trailing_comma ''[1, 2]'' \<and> no_comment ''[1, 2]'' \<and> fix_json ''[1, 2]'' = ''[1, 2]''"
proof -
  have a: "repair_stable (''[1, 2, ] // c'' @ [CHR 0x0A] @ ''{}'')"
    by (simp add: starts_comma_def comment_start_def is_space_def)
  have b: "no_trailing_comma ''[1, 2]'' \<and> no_comment ''[1, 2]''"
    by (simp add: closes_def comment_start_def is_space_def)
  have c: "fix_json (''[1, 2, ] // c'' @ [CHR 0x0A] @ ''{}'') = ''[1, 2 ] '' @ [CHR 0x0A] @ ''{}''"
    by (simp add: fix_json_eq commas_step closes_def comment_start_def is_space_def)
  from repair_pass_idempotent [of "''[1, 2, ] // c'' @ [CHR 0x0A] @ ''{}''"] a
  have d: "fix_json (fix_json (''[1, 2, ] // c'' @ [CHR 0x0A] @ ''{}'')) =
     fix_json (''[1, 2, ] // c'' @ [CHR 0x0A] @ ''{}'')"
    by blast
  from repair_pass_idempotent [of "''[1, 2]''"] b have "fix_json ''[1, 2]'' = ''[1, 2]''"
    by blast
  with a b c d show ?thesis by blast
qed

section \<open>The repair pass is not idempotent in general\<close>

text \<open>
  The claim as stated fails. The pass applied to \<^verbatim>\<open>,,}\<close> gives \<^verbatim>\<open>,}\<close>, and applied again
  gives \<^verbatim>\<open>}\<close>. It also changes valid JSON: the string in \<^verbatim>\<open>["http://a"]\<close> loses
  everything from the two slashes on and the text no longer parses, and the string in
  \<^verbatim>\<open>["a,]"]\<close> loses its comma.
\<close>

theorem repair_pass_counterexample:
  \<open>fix_json '',,}'' = '',}'' \<and>
   fix_json (fix_json '',,}'') = ''}'' \<and>
   json_loads ''["http://a"]'' = Some (JArr [JStr ''http://a'']) \<and>
   fix_json ''["http://a"]'' = ''["http:'' \<and>
   json_loads (fix_json ''["http://a"]'') = None \<and>
   json_loads ''["a,]"]'' = Some (JArr [JStr ''a,]'']) \<and>
   json_loads (fix_json ''["a,]"]'') = Some (JArr [JStr ''a]''])\<close>
  by code_simp

section \<open>Both entry points return lists\<close>

lemma nonempty_list_JArr: "nonempty_list v \<Longrightarrow> \<exists>xs. v = JArr xs"
  by (cases v) (auto simp: nonempty_list_def)

lemma strategy_code_block_list: "strategy_code_block s = Some v \<Longrightarrow> \<exists>xs. v = JArr xs"
  by (auto simp: strategy_code_block_def nonempty_list_JArr split: option.splits if_splits)

lemma strategy_long_array_list: "strategy_long_array s = Some v \<Longrightarrow> \<exists>xs. v = JArr xs"
  by (auto simp: strategy_long_array_def Let_def nonempty_list_JArr split: option.splits if_splits)

lemma strategy_questions_object_list: "strategy_questions_object s = Some v \<Longrightarrow> \<exists>xs. v = JArr xs"
  by (auto simp: strategy_questions_object_def nonempty_list_JArr split: option.splits if_splits json.splits)

lemma parse_quiz_questions_list: "\<exists>xs. parse_quiz_questions s = JArr xs"
  using strategy_code_block_list [of s] strategy_long_array_list [of s]
    strategy_questions_object_list [of s]
  by (auto simp: parse_quiz_questions_def Let_def split: option.splits)

lemma errors_from_json_list: "errors_from_json js = Inr (Some v) \<Longrightarrow> \<exists>xs. v = JArr xs"
  by (auto simp: errors_from_json_def Let_def split: option.splits sum.splits if_splits)

lemma parse_midterm_analysis_list: "\<exists>xs. parse_midterm_analysis s = JArr xs"
  using errors_from_json_list
  by (auto simp: parse_midterm_analysis_def parse_midterm_body_def Let_def
           split: option.splits sum.splits)

text \<open>
  Claim C9. For every input text both entry points return a list: every \<^verbatim>\<open>return\<close> of
  \<^verbatim>\<open>parse_quiz_questions\<close> and \<^verbatim>\<open>parse_midterm_analysis\<close> hands back a list, and an
  exception raised while normalising is turned into the empty list. On the empty text
  both return the empty list.
\<close>

theorem extraction_never_raises:
  "(\<exists>questions. parse_quiz_questions s = JArr questions) \<and>
   (\<exists>errors. parse_midterm_analysis s = JArr errors) \<and>
   parse_quiz_questions [] = JArr [] \<and>
   parse_midterm_analysis [] = JArr []"
proof -
  have "parse_quiz_questions [] = JArr []"
    by (simp add: parse_quiz_questions_def strategy_code_block_def strategy_long_array_def
        strategy_questions_object_def find_keyed_object_def extract_questions_from_broken_json_def
        extract_questions_from_text_def)
  moreover have "parse_midterm_analysis [] = JArr []"
    by (simp add: parse_midterm_analysis_def parse_midterm_body_def find_json_str_def
        first_span_def find_keyed_object_def)
  ultimately show ?thesis
    using parse_quiz_questions_list [of s] parse_midterm_analysis_list [of s] by blast
qed

section \<open>Properties of the salvage scanners\<close>



















section \<open>Properties of the tiered extractor\<close>













section \<open>Order is preserved\<close>















end
